theory Spec2Isabelle
  imports Complex_Main
begin

section \<open>Python values used by the crawler\<close>

text \<open>
  \<^verbatim>\<open>int(x)\<close> on a float truncates toward zero. The wall clock \<^verbatim>\<open>time.time()\<close> is a
  number of seconds; it is modelled as a real number.
\<close>

definition py_int :: "real \<Rightarrow> int" where
  "py_int x = (if 0 \<le> x then \<lfloor>x\<rfloor> else \<lceil>x\<rceil>)"

text \<open>\<^verbatim>\<open>pkg/tools/time_util.py\<close>: \<^verbatim>\<open>get_current_timestamp\<close> is \<^verbatim>\<open>int(time.time() * 1000)\<close>.\<close>

definition get_current_timestamp :: "real \<Rightarrow> int" where
  "get_current_timestamp now = py_int (now * 1000)"

section \<open>Resource models\<close>

subsection \<open>\<^verbatim>\<open>pkg/proxy/types.py\<close>: IpInfoModel\<close>

record IpInfoModel =
  ip :: string
  port :: int
  user :: string
  protocol :: string
  password :: string
  expired_time_ts :: int

text \<open>
  \<^verbatim>\<open>return self.expired_time_ts < int(time.time())\<close>; the second argument is the reading
  of \<^verbatim>\<open>time.time()\<close> at the moment the property is evaluated.
\<close>

definition is_expired :: "IpInfoModel \<Rightarrow> real \<Rightarrow> bool" where
  "is_expired p now = (expired_time_ts p < py_int now)"

text \<open>
  \<^verbatim>\<open>format_httpx_proxy\<close> builds the string \<^verbatim>\<open>http://user:password@ip:port\<close>. The
  model keeps its four components: \<open>ProxyUrl user password ip port\<close> stands for that
  string.
\<close>

datatype proxy_url = ProxyUrl string string string int

definition format_httpx_proxy :: "IpInfoModel \<Rightarrow> proxy_url" where
  "format_httpx_proxy p = ProxyUrl (user p) (password p) (ip p) (port p)"

subsection \<open>\<^verbatim>\<open>pkg/account_pool/field.py\<close>: account records\<close>

datatype AccountStatusEnum = NORMAL | INVALID

fun status_value :: "AccountStatusEnum \<Rightarrow> int" where
  "status_value NORMAL = 0"
| "status_value INVALID = - 1"

record AccountInfoModel =
  acct_id :: int
  account_name :: string
  cookies :: string
  platform_name :: string
  status :: int
  invalid_timestamp :: int

text \<open>
  \<^verbatim>\<open>AccountPoolManager.update_account_status\<close> on one account object:
  \<^verbatim>\<open>account.status = status.value\<close> and
  \<^verbatim>\<open>account.invalid_timestamp = utils.get_current_timestamp()\<close>, whatever the status was
  before. \<open>now\<close> is the clock at the call.
\<close>

definition update_account_status ::
  "AccountInfoModel \<Rightarrow> AccountStatusEnum \<Rightarrow> real \<Rightarrow> AccountInfoModel" where
  "update_account_status account st now =
     account\<lparr>status := status_value st, invalid_timestamp := get_current_timestamp now\<rparr>"

section \<open>Exceptions\<close>

text \<open>
  The exceptions the modelled code raises or catches. \<open>Exception\<close> is a plain
  \<^verbatim>\<open>Exception(msg)\<close>; \<open>DataFetchError\<close> is \<^verbatim>\<open>douyin.exception.DataFetchError\<close>;
  \<open>TransportError\<close> stands for whatever the HTTP transport raises (timeouts, connection
  errors); \<open>RetryError\<close> is tenacity's wrapper around the exception of the last attempt.
\<close>

datatype exn =
    Exception string
  | DataFetchError string
  | ValueError string
  | AttributeError string
  | IndexError string
  | TransportError string
  | RetryError exn

text \<open>
  \<^verbatim>\<open>str(e)\<close>. For a \<open>RetryError\<close> Python prints the wrapped future
  (\<^verbatim>\<open>RetryError[<Future at 0x... state=finished raised ...>]\<close>), never the message of
  the inner exception; the address is left out here.
\<close>

fun exn_str :: "exn \<Rightarrow> string" where
  "exn_str (Exception m) = m"
| "exn_str (DataFetchError m) = m"
| "exn_str (ValueError m) = m"
| "exn_str (AttributeError m) = m"
| "exn_str (IndexError m) = m"
| "exn_str (TransportError m) = m"
| "exn_str (RetryError e) = ''RetryError[<Future state=finished raised>]''"

text \<open>\<^verbatim>\<open>needle in haystack\<close> on strings: \<open>needle\<close> occurs as a contiguous substring.\<close>

fun starts_with :: "string \<Rightarrow> string \<Rightarrow> bool" where
  "starts_with [] s = True"
| "starts_with (c # cs) [] = False"
| "starts_with (c # cs) (d # ds) = (c = d \<and> starts_with cs ds)"

fun py_in :: "string \<Rightarrow> string \<Rightarrow> bool" where
  "py_in needle [] = (needle = [])"
| "py_in needle (d # ds) = (starts_with needle (d # ds) \<or> py_in needle ds)"

section \<open>The account pool (\<^verbatim>\<open>pkg/account_pool/pool.py\<close>)\<close>

text \<open>
  A row of the sheet \<^verbatim>\<open>config/accounts_cookies.xlsx\<close>; a field is \<open>None\<close> when the
  sheet has no such column, so that \<^verbatim>\<open>row.get(column, default)\<close> yields the default.
\<close>

record xlsx_row =
  r_id :: "int option"
  r_account_name :: "string option"
  r_cookies :: "string option"

text \<open>
  Account objects are shared by reference between the pool's list and the client's
  binding, and a reload replaces the list by fresh objects while an old binding keeps the
  old object. The model therefore keeps an object store \<open>objs\<close> (reference to object,
  \<open>n_objs\<close> the next free reference) and lists of references. The pairings
  (\<^verbatim>\<open>AccountWithIpModel\<close>: an account reference and an optional proxy) are objects too:
  the client's \<^verbatim>\<open>account_info\<close> and a local variable of \<^verbatim>\<open>update_account_info\<close> can
  name the same pairing while \<^verbatim>\<open>check_ip_expired\<close> replaces its proxy, so they live in
  the store \<open>pairs\<close>.

  The proxy list, the client's binding, its HTTP client cache and the clock belong to
  the same state; \<open>trace\<close> is the log of the observable steps taken (newest last), used
  to state the properties; no modelled function reads it.
\<close>

text \<open>\<^verbatim>\<open>DouyinSignRequest\<close> (\<^verbatim>\<open>pkg/sign\<close>): what the signer is given.\<close>

record DouyinSignRequest =
  sr_uri :: string
  sr_query_params :: string
  sr_user_agent :: string
  sr_cookies :: string

datatype event =
    Acquire
  | Reload
  | Invalidate nat
  | IpInvalid IpInfoModel
  | Sleep real
  | SignCall DouyinSignRequest
  | Dispatch string string "IpInfoModel option" "string option"

text \<open>
  \<open>Acquire\<close>: a call of \<^verbatim>\<open>get_account_with_ip_info\<close>; \<open>Reload\<close>: \<^verbatim>\<open>_reload_accounts\<close>;
  \<open>Invalidate a\<close>: \<^verbatim>\<open>update_account_status\<close> on the object \<open>a\<close>; \<open>IpInvalid p\<close>:
  \<^verbatim>\<open>ProxyIpPool.mark_ip_invalid(p)\<close>; \<open>Sleep d\<close>: \<^verbatim>\<open>asyncio.sleep(d)\<close> or a wait of
  tenacity; \<open>SignCall req\<close>: a call of \<^verbatim>\<open>DouyinSignLogic.sign\<close> with the request \<open>req\<close>;
  \<open>Dispatch uri cookie proxy token\<close>: an HTTP request sent to \<open>uri\<close> with that Cookie
  header while the bound proxy is \<open>proxy\<close>, \<open>token\<close> being the \<^verbatim>\<open>a_bogus\<close> parameter of
  the request (\<open>None\<close> when the request carries none).
\<close>

record world =
  objs :: "nat \<Rightarrow> AccountInfoModel"
  n_objs :: nat
  account_list :: "nat list"
  xlsx :: "exn + xlsx_row list"
  proxy_list :: "IpInfoModel list"
  pairs :: "nat \<Rightarrow> nat \<times> IpInfoModel option"
  n_pairs :: nat
  account_info :: "nat option"
  http_client :: "proxy_url option option"
  clock :: real
  n_requests :: nat
  n_provider_calls :: nat
  n_choices :: nat
  trace :: "event list"

definition emit :: "event \<Rightarrow> world \<Rightarrow> world" where
  "emit ev w = w\<lparr>trace := trace w @ [ev]\<rparr>"

text \<open>\<^verbatim>\<open>asyncio.sleep(d)\<close>: the clock moves on by \<open>d\<close> seconds.\<close>

definition sleep :: "real \<Rightarrow> world \<Rightarrow> world" where
  "sleep d w = emit (Sleep d) (w\<lparr>clock := clock w + d\<rparr>)"

text \<open>\<^verbatim>\<open>add_account\<close>: the new object is appended to \<^verbatim>\<open>_account_list\<close>.\<close>

definition add_account :: "AccountInfoModel \<Rightarrow> world \<Rightarrow> world" where
  "add_account account w =
     w\<lparr>objs := (objs w)(n_objs w := account),
       n_objs := Suc (n_objs w),
       account_list := account_list w @ [n_objs w]\<rparr>"

text \<open>The loop of \<^verbatim>\<open>load_accounts_from_xlsx\<close> over the rows, \<open>account_id\<close> counting from 1.\<close>

fun load_rows :: "string \<Rightarrow> xlsx_row list \<Rightarrow> int \<Rightarrow> world \<Rightarrow> world" where
  "load_rows pf [] account_id w = w"
| "load_rows pf (row # rows) account_id w =
     load_rows pf rows (account_id + 1)
       (add_account
          \<lparr>acct_id = (case r_id row of Some i \<Rightarrow> i | None \<Rightarrow> account_id),
           account_name = (case r_account_name row of Some n \<Rightarrow> n | None \<Rightarrow> []),
           cookies = (case r_cookies row of Some c \<Rightarrow> c | None \<Rightarrow> []),
           platform_name = pf,
           status = status_value NORMAL,
           invalid_timestamp = 0\<rparr> w)"

text \<open>\<^verbatim>\<open>pd.read_excel\<close> raises when the file or the sheet cannot be read.\<close>

definition load_accounts_from_xlsx :: "string \<Rightarrow> world \<Rightarrow> (exn + unit) \<times> world" where
  "load_accounts_from_xlsx pf w =
     (case xlsx w of
        Inl e \<Rightarrow> (Inl e, w)
      | Inr rows \<Rightarrow> (Inr (), load_rows pf rows 1 w))"

text \<open>\<^verbatim>\<open>_reload_accounts\<close>: clear the list, then load again (the save type is Excel).\<close>

definition reload_accounts :: "string \<Rightarrow> world \<Rightarrow> (exn + unit) \<times> world" where
  "reload_accounts pf w = load_accounts_from_xlsx pf (emit Reload (w\<lparr>account_list := []\<rparr>))"

text \<open>The first account of the list whose status is NORMAL.\<close>

fun first_normal :: "(nat \<Rightarrow> AccountInfoModel) \<Rightarrow> nat list \<Rightarrow> nat option" where
  "first_normal h [] = None"
| "first_normal h (a # as) =
     (if status (h a) = status_value NORMAL then Some a else first_normal h as)"

definition get_active_account :: "string \<Rightarrow> world \<Rightarrow> (exn + nat) \<times> world" where
  "get_active_account pf w =
     (case first_normal (objs w) (account_list w) of
        Some a \<Rightarrow> (Inr a, w)
      | None \<Rightarrow>
         (case reload_accounts pf w of
            (Inl e, w1) \<Rightarrow> (Inl e, w1)
          | (Inr _, w1) \<Rightarrow>
             (case first_normal (objs w1) (account_list w1) of
                Some a \<Rightarrow> (Inr a, w1)
              | None \<Rightarrow> (Inl (Exception ''no active account in the account pool''), w1))))"

text \<open>
  \<^verbatim>\<open>AccountPoolManager.update_account_status\<close> through a reference: the object is
  updated in the store, the list and the sheet are not touched.
\<close>

definition pool_update_account_status :: "nat \<Rightarrow> AccountStatusEnum \<Rightarrow> world \<Rightarrow> world" where
  "pool_update_account_status a st w =
     emit (Invalidate a)
       (w\<lparr>objs := (objs w)(a := update_account_status (objs w a) st (clock w))\<rparr>)"

text \<open>\<^verbatim>\<open>AccountWithIpPoolManager.mark_account_invalid\<close>.\<close>

definition pool_mark_account_invalid :: "nat \<Rightarrow> world \<Rightarrow> world" where
  "pool_mark_account_invalid a w = pool_update_account_status a INVALID w"

text \<open>The pool as the claims see it: the accounts of the list, in order, and the sheet.\<close>

definition pool_accounts :: "world \<Rightarrow> AccountInfoModel list" where
  "pool_accounts w = map (objs w) (account_list w)"

section \<open>The environment\<close>

text \<open>
  What the crawler cannot decide itself is a parameter: the configuration, and the
  answers of the outside world. The platform's answer to the \<open>i\<close>-th HTTP request sent
  is \<open>respond i\<close> (the transport raises, or a response arrives); likewise the proxy
  provider's answer to the \<open>i\<close>-th \<^verbatim>\<open>get_proxies\<close> and the \<open>i\<close>-th draw of
  \<^verbatim>\<open>random.choice\<close>. The JavaScript signer is a function of its request: it raises, or
  returns the \<^verbatim>\<open>a_bogus\<close> value (possibly empty or \<^verbatim>\<open>None\<close>).
\<close>

record json_data =
  js_status_code :: "int option"
  js_status_msg :: "string option"
  js_body :: nat

text \<open>
  An HTTP response: \<^verbatim>\<open>status_code\<close>, \<^verbatim>\<open>text\<close>, and the outcome of \<^verbatim>\<open>response.json()\<close>
  (\<open>Inl\<close> the message of the exception it raises). Of a JSON document the model keeps
  the keys the client reads, \<^verbatim>\<open>status_code\<close> and \<^verbatim>\<open>status_msg\<close> (\<open>None\<close> when absent),
  and a number standing for the rest.
\<close>

record http_response =
  rsp_status :: int
  rsp_text :: string
  rsp_json :: "string + json_data"

record CommonVerifyParams =
  ms_token :: string
  webid :: string
  verify_fp :: string

type_synonym params = "string \<rightharpoonup> string"

record env =
  ENABLE_IP_PROXY :: bool
  proxy_ip_pool_present :: bool
  enable_validate_ip :: bool
  pool_platform_name :: string
  client_user_agent :: string
  common_verify_params :: "CommonVerifyParams option"
  respond :: "nat \<Rightarrow> exn + http_response"
  provider_get_proxies :: "nat \<Rightarrow> exn + IpInfoModel list"
  random_choice :: "nat \<Rightarrow> nat"
  is_valid_proxy :: "IpInfoModel \<Rightarrow> bool"
  js_get_abogus :: "DouyinSignRequest \<Rightarrow> exn + string option"
  urlencode :: "params \<Rightarrow> string"

section \<open>The proxy pool (\<^verbatim>\<open>pkg/proxy/proxy_ip_pool.py\<close>)\<close>

text \<open>
  tenacity's \<^verbatim>\<open>@retry(stop=stop_after_attempt(n), wait=wait_fixed(d))\<close> around a body:
  the body runs; when it raises and fewer than \<open>n\<close> attempts were made, the wrapper waits
  \<open>d\<close> seconds and runs it again; when the \<open>n\<close>-th attempt raises, the wrapper raises
  \<open>RetryError\<close> around that last exception. \<open>retry_loop k\<close> is the wrapper with \<open>k\<close>
  further attempts allowed after the current one.
\<close>

fun retry_loop ::
  "nat \<Rightarrow> real \<Rightarrow> (world \<Rightarrow> (exn + 'a) \<times> world) \<Rightarrow> world \<Rightarrow> (exn + 'a) \<times> world" where
  "retry_loop 0 d body w =
     (case body w of (Inl e, w1) \<Rightarrow> (Inl (RetryError e), w1) | (Inr x, w1) \<Rightarrow> (Inr x, w1))"
| "retry_loop (Suc k) d body w =
     (case body w of
        (Inl e, w1) \<Rightarrow> retry_loop k d body (sleep d w1)
      | (Inr x, w1) \<Rightarrow> (Inr x, w1))"

definition tenacity_retry ::
  "nat \<Rightarrow> real \<Rightarrow> (world \<Rightarrow> (exn + 'a) \<times> world) \<Rightarrow> world \<Rightarrow> (exn + 'a) \<times> world" where
  "tenacity_retry stop_after_attempt wait_fixed body = retry_loop (stop_after_attempt - 1) wait_fixed body"

text \<open>\<^verbatim>\<open>_reload_proxies\<close>: empty the list, then \<^verbatim>\<open>load_proxies\<close> asks the provider.\<close>

definition reload_proxies :: "env \<Rightarrow> world \<Rightarrow> (exn + unit) \<times> world" where
  "reload_proxies env w =
     (let w1 = w\<lparr>proxy_list := [], n_provider_calls := Suc (n_provider_calls w)\<rparr> in
      case provider_get_proxies env (n_provider_calls w) of
        Inl e \<Rightarrow> (Inl e, w1)
      | Inr ps \<Rightarrow> (Inr (), w1\<lparr>proxy_list := ps\<rparr>))"

text \<open>
  The body of \<^verbatim>\<open>get_proxy\<close>: reload when the list is empty, draw one endpoint, remove it
  from the list, probe it when validation is on. \<^verbatim>\<open>random.choice\<close> raises IndexError on
  an empty list. The expiry time of the endpoint is not looked at.
\<close>

definition get_proxy_body :: "env \<Rightarrow> world \<Rightarrow> (exn + IpInfoModel) \<times> world" where
  "get_proxy_body env w =
     (case (if proxy_list w = [] then reload_proxies env w else (Inr (), w)) of
        (Inl e, w1) \<Rightarrow> (Inl e, w1)
      | (Inr _, w1) \<Rightarrow>
         (if proxy_list w1 = [] then (Inl (IndexError ''Cannot choose from an empty sequence''), w1)
          else
            (let proxy = proxy_list w1 ! (random_choice env (n_choices w1) mod length (proxy_list w1));
                 w2 = w1\<lparr>proxy_list := remove1 proxy (proxy_list w1), n_choices := Suc (n_choices w1)\<rparr>
             in if enable_validate_ip env \<and> \<not> is_valid_proxy env proxy
                then (Inl (Exception ''[ProxyIpPool.get_proxy] current ip invalid and again get it''), w2)
                else (Inr proxy, w2))))"

definition get_proxy :: "env \<Rightarrow> world \<Rightarrow> (exn + IpInfoModel) \<times> world" where
  "get_proxy env = tenacity_retry 3 1 (get_proxy_body env)"

text \<open>
  \<^verbatim>\<open>ProxyIpPool.mark_ip_invalid\<close>: the provider only logs; the first endpoint of the list
  with the same ip, port, protocol, user and password is removed.
\<close>

fun remove_same_endpoint :: "IpInfoModel \<Rightarrow> IpInfoModel list \<Rightarrow> IpInfoModel list" where
  "remove_same_endpoint proxy [] = []"
| "remove_same_endpoint proxy (p # ps) =
     (if ip p = ip proxy \<and> port p = port proxy \<and> protocol p = protocol proxy
         \<and> user p = user proxy \<and> password p = password proxy
      then ps else p # remove_same_endpoint proxy ps)"

definition proxy_pool_mark_ip_invalid :: "IpInfoModel \<Rightarrow> world \<Rightarrow> world" where
  "proxy_pool_mark_ip_invalid proxy w =
     emit (IpInvalid proxy) (w\<lparr>proxy_list := remove_same_endpoint proxy (proxy_list w)\<rparr>)"

text \<open>\<^verbatim>\<open>AccountWithIpPoolManager.mark_ip_invalid\<close>.\<close>

definition pool_mark_ip_invalid :: "env \<Rightarrow> IpInfoModel option \<Rightarrow> world \<Rightarrow> world" where
  "pool_mark_ip_invalid env ip_info w =
     (case ip_info of
        None \<Rightarrow> w
      | Some p \<Rightarrow> if proxy_ip_pool_present env then proxy_pool_mark_ip_invalid p w else w)"

text \<open>
  \<^verbatim>\<open>get_account_with_ip_info\<close>: an active account (with one more reload and a second
  try when the first try raises), then a proxy when the pool has a proxy pool; the result
  is a new pairing object.
\<close>

definition get_account_with_ip_info :: "env \<Rightarrow> world \<Rightarrow> (exn + nat) \<times> world" where
  "get_account_with_ip_info env w =
     (let pf = pool_platform_name env;
          r = (case get_active_account pf (emit Acquire w) of
                 (Inr a, w1) \<Rightarrow> (Inr a, w1)
               | (Inl _, w1) \<Rightarrow>
                  (case reload_accounts pf w1 of
                     (Inl e, w2) \<Rightarrow> (Inl e, w2)
                   | (Inr _, w2) \<Rightarrow> get_active_account pf w2))
      in case r of
           (Inl e, w3) \<Rightarrow> (Inl e, w3)
         | (Inr a, w3) \<Rightarrow>
            (case (if proxy_ip_pool_present env
                   then (case get_proxy env w3 of
                           (Inl e, w4) \<Rightarrow> (Inl e, w4)
                         | (Inr p, w4) \<Rightarrow> (Inr (Some p), w4))
                   else (Inr None, w3)) of
               (Inl e, w4) \<Rightarrow> (Inl e, w4)
             | (Inr ip_info, w4) \<Rightarrow>
                (Inr (n_pairs w4),
                 w4\<lparr>pairs := (pairs w4)(n_pairs w4 := (a, ip_info)), n_pairs := Suc (n_pairs w4)\<rparr>)))"

section \<open>Signing (\<^verbatim>\<open>pkg/sign\<close>)\<close>

text \<open>
  \<^verbatim>\<open>DouyinSignResponse\<close>: the field \<^verbatim>\<open>a_bogus\<close>, and \<^verbatim>\<open>data.a_bogus\<close> when \<^verbatim>\<open>data\<close> is
  given. A Python string is truthy when it is not empty.
\<close>

record DouyinSignResponse =
  resp_a_bogus :: "string option"
  resp_data :: "string option"

definition truthy :: "string option \<Rightarrow> bool" where
  "truthy s = (case s of None \<Rightarrow> False | Some t \<Rightarrow> t \<noteq> [])"

definition get_a_bogus :: "DouyinSignResponse \<Rightarrow> exn + string" where
  "get_a_bogus r =
     (if truthy (resp_a_bogus r) then Inr (the (resp_a_bogus r))
      else if truthy (resp_data r) then Inr (the (resp_data r))
      else Inl (ValueError ''a_bogus not found in response''))"

text \<open>
  \<^verbatim>\<open>DouyinJavascriptSign.sign\<close> (three attempts, 0.5 s apart) calls the JavaScript
  function and wraps its value in a response; \<^verbatim>\<open>DouyinSignLogic.sign\<close> calls it and, on
  a \<open>RetryError\<close>, calls it once more.
\<close>

definition javascript_sign_body ::
  "env \<Rightarrow> DouyinSignRequest \<Rightarrow> world \<Rightarrow> (exn + DouyinSignResponse) \<times> world" where
  "javascript_sign_body env req w =
     (case js_get_abogus env req of
        Inl e \<Rightarrow> (Inl e, w)
      | Inr a \<Rightarrow> (Inr \<lparr>resp_a_bogus = a, resp_data = None\<rparr>, w))"

definition javascript_sign ::
  "env \<Rightarrow> DouyinSignRequest \<Rightarrow> world \<Rightarrow> (exn + DouyinSignResponse) \<times> world" where
  "javascript_sign env req = tenacity_retry 3 (1/2) (javascript_sign_body env req)"

definition sign_logic ::
  "env \<Rightarrow> DouyinSignRequest \<Rightarrow> world \<Rightarrow> (exn + DouyinSignResponse) \<times> world" where
  "sign_logic env req w =
     (case javascript_sign env req (emit (SignCall req) w) of
        (Inl (RetryError _), w1) \<Rightarrow> javascript_sign env req w1
      | r \<Rightarrow> r)"

section \<open>The request client (\<^verbatim>\<open>douyin/client.py\<close>)\<close>

text \<open>
  The client reads its binding through \<^verbatim>\<open>self.account_info\<close>: the cookies of the bound
  account (\<^verbatim>\<open>_cookies\<close>) and the proxy URL of the bound endpoint (\<^verbatim>\<open>_proxies\<close>).
\<close>

definition client_cookies :: "world \<Rightarrow> string" where
  "client_cookies w =
     (case account_info w of None \<Rightarrow> [] | Some b \<Rightarrow> cookies (objs w (fst (pairs w b))))"

definition client_ip_info :: "world \<Rightarrow> IpInfoModel option" where
  "client_ip_info w = (case account_info w of None \<Rightarrow> None | Some b \<Rightarrow> snd (pairs w b))"

definition client_proxies :: "world \<Rightarrow> proxy_url option" where
  "client_proxies w = map_option format_httpx_proxy (client_ip_info w)"

text \<open>\<^verbatim>\<open>_common_params\<close>, every value as \<^verbatim>\<open>urlencode\<close> prints it.\<close>

definition common_params :: params where
  "common_params = map_of
     [(''device_platform'', ''webapp''), (''aid'', ''6383''), (''channel'', ''channel_pc_web''),
      (''publish_video_strategy_type'', ''2''), (''update_version_code'', ''170400''),
      (''pc_client_type'', ''1''), (''version_code'', ''170400''), (''version_name'', ''17.4.0''),
      (''cookie_enabled'', ''true''), (''screen_width'', ''2560''), (''screen_height'', ''1440''),
      (''browser_language'', ''zh-CN''), (''browser_platform'', ''MacIntel''),
      (''browser_name'', ''Chrome''), (''browser_version'', ''135.0.0.0''),
      (''browser_online'', ''true''), (''engine_name'', ''Blink''),
      (''engine_version'', ''135.0.0.0''), (''os_name'', ''Mac+OS''), (''os_version'', ''10.15.7''),
      (''cpu_core_num'', ''8''), (''device_memory'', ''8''), (''platform'', ''PC''),
      (''downlink'', ''4.45''), (''effective_type'', ''4g''), (''round_trip_time'', ''100'')]"

definition verify_params :: "env \<Rightarrow> params" where
  "verify_params env =
     (case common_verify_params env of
        None \<Rightarrow> Map.empty
      | Some c \<Rightarrow> [''webid'' \<mapsto> webid c, ''msToken'' \<mapsto> ms_token c])"

text \<open>
  \<^verbatim>\<open>_pre_url_params\<close>: merge the common and the verify parameters into a copy, sign the
  encoded query, and, unless the URI contains \<^verbatim>\<open>/v1/web/general/search/single/\<close>, read
  the token with \<^verbatim>\<open>get_a_bogus\<close> (the response class has that method, so the first
  branch of the \<^verbatim>\<open>hasattr\<close> chain is the one taken) and store it under \<^verbatim>\<open>a_bogus\<close>; an
  empty token raises. \<^verbatim>\<open>None\<close> for \<^verbatim>\<open>url_params\<close> is the empty dictionary.
\<close>

definition pre_url_params :: "env \<Rightarrow> string \<Rightarrow> params \<Rightarrow> world \<Rightarrow> (exn + params) \<times> world" where
  "pre_url_params env uri url_params w =
     (let final_url_params = url_params ++ common_params ++ verify_params env;
          sign_req = \<lparr>sr_uri = uri, sr_query_params = urlencode env final_url_params,
                      sr_user_agent = client_user_agent env, sr_cookies = client_cookies w\<rparr>
      in case sign_logic env sign_req w of
           (Inl e, w1) \<Rightarrow> (Inl e, w1)
         | (Inr dy_sign_resp, w1) \<Rightarrow>
            (if \<not> py_in ''/v1/web/general/search/single/'' uri
             then (case get_a_bogus dy_sign_resp of
                     Inl e \<Rightarrow> (Inl e, w1)
                   | Inr a_bogus \<Rightarrow>
                      (if a_bogus \<noteq> []
                       then (Inr (final_url_params(''a_bogus'' \<mapsto> a_bogus)), w1)
                       else (Inl (Exception ''Failed to generate a_bogus signature''), w1)))
             else (Inr final_url_params, w1)))"

text \<open>\<^verbatim>\<open>_reset_http_client\<close>: close and forget the cached HTTP client.\<close>

definition reset_http_client :: "world \<Rightarrow> world" where
  "reset_http_client w = w\<lparr>http_client := None\<rparr>"

text \<open>
  \<^verbatim>\<open>DouYinApiClient.mark_account_invalid(account_with_ip)\<close>: the account of the pairing,
  then its proxy. The account pool is set before the client is used.
\<close>

definition client_mark_account_invalid :: "env \<Rightarrow> nat \<Rightarrow> world \<Rightarrow> world" where
  "client_mark_account_invalid env b w =
     pool_mark_ip_invalid env (snd (pairs w b)) (pool_mark_account_invalid (fst (pairs w b)) w)"

text \<open>
  \<^verbatim>\<open>check_ip_expired\<close>: when proxying is on and the bound endpoint is expired at the
  current clock, mark it invalid, take another endpoint from the proxy pool, store it in
  the pairing and drop the HTTP client. The endpoint returned by \<^verbatim>\<open>get_proxy\<close> is
  stored as it comes.
\<close>

definition check_ip_expired :: "env \<Rightarrow> world \<Rightarrow> (exn + unit) \<times> world" where
  "check_ip_expired env w =
     (case account_info w of
        None \<Rightarrow> (Inr (), w)
      | Some b \<Rightarrow>
         (case snd (pairs w b) of
            None \<Rightarrow> (Inr (), w)
          | Some ip_info \<Rightarrow>
             (if ENABLE_IP_PROXY env \<and> is_expired ip_info (clock w)
              then
                (let w1 = pool_mark_ip_invalid env (Some ip_info) w in
                 if \<not> proxy_ip_pool_present env
                 then (Inl (AttributeError ''NoneType object has no attribute get_proxy''), w1)
                 else
                   (case get_proxy env w1 of
                      (Inl e, w2) \<Rightarrow> (Inl e, w2)
                    | (Inr p, w2) \<Rightarrow>
                       (Inr (), reset_http_client
                                  (w2\<lparr>pairs := (pairs w2)(b := (fst (pairs w2 b), Some p))\<rparr>))))
              else (Inr (), w))))"

text \<open>Decimal digits of a natural number, for \<^verbatim>\<open>f"HTTP {response.status_code} error"\<close>.\<close>

fun str_nat :: "nat \<Rightarrow> string" where
  "str_nat n =
     (if n < 10 then [char_of (48 + n)] else str_nat (n div 10) @ [char_of (48 + n mod 10)])"

definition str_int :: "int \<Rightarrow> string" where
  "str_int i = (if i < 0 then ''-'' @ str_nat (nat (- i)) else str_nat (nat i))"

text \<open>
  What \<^verbatim>\<open>request\<close> makes of a response. The status codes 401, 403, 429 and any other
  code than 200 raise before the \<^verbatim>\<open>try\<close>. Inside it, an empty or \<^verbatim>\<open>blocked\<close> body, a body
  that is not JSON, the application code 8 and the codes 10007 and 10008 raise; the
  \<^verbatim>\<open>except\<close> clause re-raises an exception whose message is exactly one of five strings
  and turns any other into a \<open>DataFetchError\<close> with the same message. Other application
  codes are logged and the document is returned.
\<close>

definition response_body_result :: "http_response \<Rightarrow> exn + json_data" where
  "response_body_result response =
     (if rsp_text response = [] \<or> rsp_text response = ''blocked''
      then Inl (Exception ''account blocked'')
      else
        (case rsp_json response of
           Inl json_error \<Rightarrow> Inl (DataFetchError (''Failed to parse JSON response: '' @ json_error))
         | Inr json_data \<Rightarrow>
            (let api_status_code = (case js_status_code json_data of Some c \<Rightarrow> c | None \<Rightarrow> 0) in
             if api_status_code = 8 then Inl (Exception ''account not logged in'')
             else if api_status_code \<noteq> 0 \<and> api_status_code \<noteq> 1
             then
               (let status_msg =
                      (case js_status_msg json_data of Some m \<Rightarrow> m | None \<Rightarrow> ''Unknown error'') in
                if api_status_code \<in> set [8, 10007, 10008]
                then Inl (Exception (''account error: '' @ status_msg))
                else Inr json_data)
             else Inr json_data)))"

definition response_result :: "http_response \<Rightarrow> exn + json_data" where
  "response_result response =
     (if rsp_status response = 401 then Inl (Exception ''account unauthorized'')
      else if rsp_status response = 403 then Inl (Exception ''account blocked'')
      else if rsp_status response = 429 then Inl (Exception ''rate limited'')
      else if rsp_status response \<noteq> 200
      then Inl (DataFetchError (''HTTP '' @ str_int (rsp_status response) @ '' error''))
      else
        (case response_body_result response of
           Inl e \<Rightarrow>
            (if exn_str e \<in> set [''account blocked'', ''account unauthorized'',
                   ''account not logged in'', ''rate limited'', ''account error'']
             then Inl e
             else Inl (DataFetchError (exn_str e)))
         | Inr json_data \<Rightarrow> Inr json_data))"

text \<open>
  One attempt of \<^verbatim>\<open>request\<close>: the expiry check, the headers (\<open>headers\<close> is the Cookie
  header of the \<^verbatim>\<open>headers\<close> argument, \<open>None\<close> when the caller passes none and the client's
  own headers are used), the HTTP client (created anew when there is none or its proxy
  differs from the bound one), the request itself, the classification. No caller passes
  \<^verbatim>\<open>return_response\<close>.
\<close>

definition request_body ::
  "env \<Rightarrow> string \<Rightarrow> params \<Rightarrow> string option \<Rightarrow> world \<Rightarrow> (exn + json_data) \<times> world" where
  "request_body env url prms headers w =
     (case check_ip_expired env w of
        (Inl e, w1) \<Rightarrow> (Inl e, w1)
      | (Inr _, w1) \<Rightarrow>
         (let cookie = (case headers of Some c \<Rightarrow> c | None \<Rightarrow> client_cookies w1);
              current_proxy = client_proxies w1;
              w2 = (if http_client w1 = None \<or> http_client w1 \<noteq> Some current_proxy
                    then w1\<lparr>http_client := Some current_proxy\<rparr> else w1);
              w3 = emit (Dispatch url cookie (client_ip_info w2) (prms ''a_bogus''))
                     (w2\<lparr>n_requests := Suc (n_requests w2)\<rparr>)
          in case respond env (n_requests w2) of
               Inl e \<Rightarrow> (Inl e, w3)
             | Inr response \<Rightarrow> (response_result response, w3)))"

text \<open>\<^verbatim>\<open>@retry(stop=stop_after_attempt(5), wait=wait_fixed(1))\<close> on \<^verbatim>\<open>request\<close>.\<close>

definition request ::
  "env \<Rightarrow> string \<Rightarrow> params \<Rightarrow> string option \<Rightarrow> world \<Rightarrow> (exn + json_data) \<times> world" where
  "request env url prms headers = tenacity_retry 5 1 (request_body env url prms headers)"

declare str_nat.simps [simp del]

text \<open>
  The \<^verbatim>\<open>except RetryError\<close> clause of \<^verbatim>\<open>get\<close> sorts the exception of the last attempt by
  its message.
\<close>

definition account_related :: "string \<Rightarrow> bool" where
  "account_related exception_str =
     list_ex (\<lambda>err. py_in err exception_str)
       [''account blocked'', ''account unauthorized'', ''account not logged in'', ''account error'']"

definition rate_limited :: "string \<Rightarrow> bool" where
  "rate_limited exception_str = py_in ''rate limited'' exception_str"

text \<open>
  Every branch of the clause ends with the same two statements: sign the parameters
  again, \<^verbatim>\<open>request\<close> again.
\<close>

definition sign_and_request ::
  "env \<Rightarrow> string \<Rightarrow> params \<Rightarrow> string option \<Rightarrow> world \<Rightarrow> (exn + json_data) \<times> world" where
  "sign_and_request env uri prms headers w =
     (case pre_url_params env uri prms w of
        (Inl e, w1) \<Rightarrow> (Inl e, w1)
      | (Inr prms2, w1) \<Rightarrow> request env uri prms2 headers w1)"

text \<open>
  \<^verbatim>\<open>get\<close> calls \<^verbatim>\<open>update_account_info\<close> from its \<^verbatim>\<open>except\<close> clause, and
  \<^verbatim>\<open>update_account_info\<close> probes the new account with \<^verbatim>\<open>get\<close>: the two methods re-enter
  each other, to a depth the code does not bound. The model follows the re-entrance to a
  given depth. The outcome of a call is a pair: what the call returned or raised, or
  \<open>None\<close> when the call has not returned because the code goes deeper than the model
  follows, and the state reached (in the second case: the state in which the code enters
  \<^verbatim>\<open>update_account_info\<close> once more).
\<close>

type_synonym 'a outcome = "(exn + 'a) option \<times> world"

text \<open>
  The two branches that change the identity (the first and the last) run the same
  statements: mark the bound pairing invalid, \<^verbatim>\<open>update_account_info\<close>, then sign and
  request again. \<open>rebind\<close> is \<^verbatim>\<open>update_account_info\<close>.
  \<^verbatim>\<open>self.account_info\<close> being \<^verbatim>\<open>None\<close> makes \<^verbatim>\<open>mark_account_invalid\<close> raise.
\<close>

definition rotate_and_retry ::
  "env \<Rightarrow> (world \<Rightarrow> unit outcome) \<Rightarrow> string \<Rightarrow> params \<Rightarrow> string option
     \<Rightarrow> world \<Rightarrow> json_data outcome" where
  "rotate_and_retry env rebind uri prms headers w =
     (case account_info w of
        None \<Rightarrow> (Some (Inl (AttributeError ''NoneType object has no attribute account'')), w)
      | Some b \<Rightarrow>
         (case rebind (client_mark_account_invalid env b w) of
            (None, w1) \<Rightarrow> (None, w1)
          | (Some (Inl e), w1) \<Rightarrow> (Some (Inl e), w1)
          | (Some (Inr _), w1) \<Rightarrow>
             (case sign_and_request env uri prms headers w1 of (r, w2) \<Rightarrow> (Some r, w2))))"

text \<open>The rate-limit branch: sleep 10 s, then sign and request again.\<close>

definition wait_and_retry ::
  "env \<Rightarrow> string \<Rightarrow> params \<Rightarrow> string option \<Rightarrow> world \<Rightarrow> (exn + json_data) \<times> world" where
  "wait_and_retry env uri prms headers w = sign_and_request env uri prms headers (sleep 10 w)"

text \<open>
  The \<^verbatim>\<open>try\<close> block of \<^verbatim>\<open>get\<close>: sign, then \<^verbatim>\<open>request\<close>. The second component of the
  result is the value of the variable \<^verbatim>\<open>params\<close> when the block is left: the signed
  parameters once \<^verbatim>\<open>_pre_url_params\<close> has returned, the caller's otherwise.
\<close>

definition get_try ::
  "env \<Rightarrow> string \<Rightarrow> params \<Rightarrow> string option \<Rightarrow> world
     \<Rightarrow> ((exn + json_data) \<times> params) \<times> world" where
  "get_try env uri prms headers w =
     (case pre_url_params env uri prms w of
        (Inl e, w1) \<Rightarrow> ((Inl e, prms), w1)
      | (Inr prms1, w1) \<Rightarrow>
         (case request env uri prms1 headers w1 of (r, w2) \<Rightarrow> ((r, prms1), w2)))"

text \<open>
  \<^verbatim>\<open>get\<close>. Only a \<open>RetryError\<close> is caught; the exception of the last attempt decides the
  branch; whatever the second \<^verbatim>\<open>request\<close> raises leaves \<^verbatim>\<open>get\<close>.
\<close>

definition get_with ::
  "env \<Rightarrow> (world \<Rightarrow> unit outcome) \<Rightarrow> string \<Rightarrow> params \<Rightarrow> string option
     \<Rightarrow> world \<Rightarrow> json_data outcome" where
  "get_with env rebind uri prms headers w =
     (case get_try env uri prms headers w of
        ((Inr json, _), w1) \<Rightarrow> (Some (Inr json), w1)
      | ((Inl (RetryError original_exception), prms1), w1) \<Rightarrow>
         (let exception_str = exn_str original_exception in
          if account_related exception_str
          then rotate_and_retry env rebind uri prms1 headers w1
          else if rate_limited exception_str
          then (case wait_and_retry env uri prms1 headers w1 of (r, w2) \<Rightarrow> (Some r, w2))
          else rotate_and_retry env rebind uri prms1 headers w1)
      | ((Inl e, _), w1) \<Rightarrow> (Some (Inl e), w1))"

text \<open>
  \<^verbatim>\<open>check_login_status_via_user_self\<close> and \<^verbatim>\<open>pong\<close>: the probe is a \<^verbatim>\<open>get\<close> of the read
  history; logged in means that the document's \<^verbatim>\<open>status_code\<close> is 0 (a missing key reads
  as \<open>-1\<close>); any exception means not logged in.
\<close>

definition history_params :: params where
  "history_params = [''max_cursor'' \<mapsto> ''0'', ''count'' \<mapsto> ''20'']"

definition pong_with ::
  "(string \<Rightarrow> params \<Rightarrow> string option \<Rightarrow> world \<Rightarrow> json_data outcome)
     \<Rightarrow> world \<Rightarrow> bool option \<times> world" where
  "pong_with get_fn w =
     (case get_fn ''/aweme/v1/web/history/read/'' history_params None w of
        (None, w1) \<Rightarrow> (None, w1)
      | (Some (Inl e), w1) \<Rightarrow> (Some False, w1)
      | (Some (Inr response), w1) \<Rightarrow>
         (Some ((case js_status_code response of Some c \<Rightarrow> c | None \<Rightarrow> - 1) = 0), w1))"

text \<open>
  Whether \<^verbatim>\<open>update_account_info\<close> drops the cached HTTP client before it stores the new
  pairing: there was no pairing, or the account id differs, or both have a proxy and the
  ip differs.
\<close>

definition binding_changed :: "world \<Rightarrow> nat \<Rightarrow> bool" where
  "binding_changed w b =
     (case account_info w of
        None \<Rightarrow> True
      | Some b0 \<Rightarrow>
         acct_id (objs w (fst (pairs w b0))) \<noteq> acct_id (objs w (fst (pairs w b)))
         \<or> (case (snd (pairs w b0), snd (pairs w b)) of
               (Some p0, Some p) \<Rightarrow> ip p0 \<noteq> ip p
             | _ \<Rightarrow> False))"

text \<open>
  The \<^verbatim>\<open>while\<close> loop of \<^verbatim>\<open>update_account_info\<close>; the first argument after the probe is
  \<open>max_retries - retry_count\<close>, the iterations left. An iteration takes a pairing from
  the pool, makes it the client's, and probes it; a failed probe marks the pairing of the
  iteration invalid; an exception (only the acquisition raises) is logged, followed by a
  2 s sleep unless it was the last iteration. The result is \<^verbatim>\<open>have_account\<close>.
\<close>

fun update_loop ::
  "env \<Rightarrow> (world \<Rightarrow> bool option \<times> world) \<Rightarrow> nat \<Rightarrow> world \<Rightarrow> bool option \<times> world" where
  "update_loop env pong 0 w = (Some False, w)"
| "update_loop env pong (Suc left) w =
     (case get_account_with_ip_info env w of
        (Inl e, w1) \<Rightarrow> update_loop env pong left (if 0 < left then sleep 2 w1 else w1)
      | (Inr b, w1) \<Rightarrow>
         (let w2 = (if binding_changed w1 b then reset_http_client w1 else w1);
              w3 = w2\<lparr>account_info := Some b\<rparr>
          in case pong w3 of
               (None, w4) \<Rightarrow> (None, w4)
             | (Some True, w4) \<Rightarrow> (Some True, w4)
             | (Some False, w4) \<Rightarrow> update_loop env pong left (client_mark_account_invalid env b w4)))"

definition max_retries :: nat where
  "max_retries = 10"

definition update_account_info_with ::
  "env \<Rightarrow> (world \<Rightarrow> unit outcome) \<Rightarrow> world \<Rightarrow> unit outcome" where
  "update_account_info_with env deeper w =
     (case update_loop env (pong_with (get_with env deeper)) max_retries w of
        (None, w1) \<Rightarrow> (None, w1)
      | (Some True, w1) \<Rightarrow> (Some (Inr ()), w1)
      | (Some False, w1) \<Rightarrow>
         (Some (Inl (Exception ''Failed to get valid account after maximum retries'')), w1))"

text \<open>
  \<open>update_account_info env d\<close> is the method followed through \<open>d\<close> levels of re-entrance
  (a probe whose \<^verbatim>\<open>get\<close> calls \<^verbatim>\<open>update_account_info\<close> again is one level); \<open>get env d\<close> is
  \<^verbatim>\<open>get\<close> whose \<^verbatim>\<open>update_account_info\<close> is followed through \<open>d\<close> levels.
\<close>

primrec update_account_info :: "env \<Rightarrow> nat \<Rightarrow> world \<Rightarrow> unit outcome" where
  "update_account_info env 0 = update_account_info_with env (\<lambda>w. (None, w))"
| "update_account_info env (Suc d) = update_account_info_with env (update_account_info env d)"

definition get ::
  "env \<Rightarrow> nat \<Rightarrow> string \<Rightarrow> params \<Rightarrow> string option \<Rightarrow> world \<Rightarrow> json_data outcome" where
  "get env d = get_with env (update_account_info env d)"

definition pong :: "env \<Rightarrow> nat \<Rightarrow> world \<Rightarrow> bool option \<times> world" where
  "pong env d = pong_with (get env d)"

text \<open>
  \<^verbatim>\<open>post\<close> has the shape of \<^verbatim>\<open>get\<close>, with two differences: the parameters are signed only
  when \<^verbatim>\<open>need_sign\<close> holds, and the headers are built from the client's current headers
  before each \<^verbatim>\<open>request\<close> (in the \<^verbatim>\<open>except\<close> clause: after the rebinding and before the
  signing). The request body \<^verbatim>\<open>data\<close> is not modelled.
\<close>

definition sign_if_needed ::
  "env \<Rightarrow> bool \<Rightarrow> string \<Rightarrow> params \<Rightarrow> world \<Rightarrow> (exn + params) \<times> world" where
  "sign_if_needed env need_sign uri prms w =
     (if need_sign then pre_url_params env uri prms w else (Inr prms, w))"

definition post_try ::
  "env \<Rightarrow> string \<Rightarrow> params \<Rightarrow> bool \<Rightarrow> world \<Rightarrow> ((exn + json_data) \<times> params) \<times> world" where
  "post_try env uri prms need_sign w =
     (case sign_if_needed env need_sign uri prms w of
        (Inl e, w1) \<Rightarrow> ((Inl e, prms), w1)
      | (Inr prms1, w1) \<Rightarrow>
         (case request env uri prms1 (Some (client_cookies w1)) w1 of (r, w2) \<Rightarrow> ((r, prms1), w2)))"

definition post_again ::
  "env \<Rightarrow> string \<Rightarrow> params \<Rightarrow> bool \<Rightarrow> world \<Rightarrow> (exn + json_data) \<times> world" where
  "post_again env uri prms need_sign w =
     (let headers = Some (client_cookies w) in
      case sign_if_needed env need_sign uri prms w of
        (Inl e, w1) \<Rightarrow> (Inl e, w1)
      | (Inr prms2, w1) \<Rightarrow> request env uri prms2 headers w1)"

definition post_rotate_and_retry ::
  "env \<Rightarrow> (world \<Rightarrow> unit outcome) \<Rightarrow> string \<Rightarrow> params \<Rightarrow> bool
     \<Rightarrow> world \<Rightarrow> json_data outcome" where
  "post_rotate_and_retry env rebind uri prms need_sign w =
     (case account_info w of
        None \<Rightarrow> (Some (Inl (AttributeError ''NoneType object has no attribute account'')), w)
      | Some b \<Rightarrow>
         (case rebind (client_mark_account_invalid env b w) of
            (None, w1) \<Rightarrow> (None, w1)
          | (Some (Inl e), w1) \<Rightarrow> (Some (Inl e), w1)
          | (Some (Inr _), w1) \<Rightarrow>
             (case post_again env uri prms need_sign w1 of (r, w2) \<Rightarrow> (Some r, w2))))"

definition post_with ::
  "env \<Rightarrow> (world \<Rightarrow> unit outcome) \<Rightarrow> string \<Rightarrow> params \<Rightarrow> bool
     \<Rightarrow> world \<Rightarrow> json_data outcome" where
  "post_with env rebind uri prms need_sign w =
     (case post_try env uri prms need_sign w of
        ((Inr json, _), w1) \<Rightarrow> (Some (Inr json), w1)
      | ((Inl (RetryError original_exception), prms1), w1) \<Rightarrow>
         (let exception_str = exn_str original_exception in
          if account_related exception_str
          then post_rotate_and_retry env rebind uri prms1 need_sign w1
          else if rate_limited exception_str
          then (case post_again env uri prms1 need_sign (sleep 10 w1) of (r, w2) \<Rightarrow> (Some r, w2))
          else post_rotate_and_retry env rebind uri prms1 need_sign w1)
      | ((Inl e, _), w1) \<Rightarrow> (Some (Inl e), w1))"

definition post ::
  "env \<Rightarrow> nat \<Rightarrow> string \<Rightarrow> params \<Rightarrow> bool \<Rightarrow> world \<Rightarrow> json_data outcome" where
  "post env d = post_with env (update_account_info env d)"

subsection \<open>The typed fetch operations\<close>

text \<open>
  The enumerations of \<^verbatim>\<open>douyin/field.py\<close> with their values, as \<^verbatim>\<open>urlencode\<close> prints them.
\<close>

datatype SearchChannelType = CHANNEL_GENERAL | CHANNEL_VIDEO | CHANNEL_USER | CHANNEL_LIVE

fun search_channel_value :: "SearchChannelType \<Rightarrow> string" where
  "search_channel_value CHANNEL_GENERAL = ''aweme_general''"
| "search_channel_value CHANNEL_VIDEO = ''aweme_video_web''"
| "search_channel_value CHANNEL_USER = ''aweme_user_web''"
| "search_channel_value CHANNEL_LIVE = ''aweme_live''"

datatype SearchSortType = SORT_GENERAL | SORT_MOST_LIKE | SORT_LATEST

fun sort_type_value :: "SearchSortType \<Rightarrow> int" where
  "sort_type_value SORT_GENERAL = 0"
| "sort_type_value SORT_MOST_LIKE = 1"
| "sort_type_value SORT_LATEST = 2"

datatype PublishTimeType = UNLIMITED | ONE_DAY | ONE_WEEK | SIX_MONTH

fun publish_time_value :: "PublishTimeType \<Rightarrow> int" where
  "publish_time_value UNLIMITED = 0"
| "publish_time_value ONE_DAY = 1"
| "publish_time_value ONE_WEEK = 7"
| "publish_time_value SIX_MONTH = 180"

text \<open>
  The seven operations the handlers call, with their arguments (of the home-feed tag,
  the value). Each builds its parameters and ends in one call of \<^verbatim>\<open>get\<close> or \<^verbatim>\<open>post\<close>;
  what it makes of the document returned (the extraction of models) is not modelled.
\<close>

datatype operation =
    SearchInfoByKeyword string int SearchChannelType SearchSortType PublishTimeType string
  | GetVideoById string
  | GetAwemeComments string int
  | GetSubComments string int string
  | GetUserInfo string
  | GetUserAwemePosts string string
  | GetHomefeedAwemeList int int int

fun op_uri :: "operation \<Rightarrow> string" where
  "op_uri (SearchInfoByKeyword keyword offset search_channel sort_type publish_time search_id) =
     ''/aweme/v1/web/general/search/single/''"
| "op_uri (GetVideoById aweme_id) = ''/aweme/v1/web/aweme/detail/''"
| "op_uri (GetAwemeComments aweme_id cursor) = ''/aweme/v1/web/comment/list/''"
| "op_uri (GetSubComments comment_id cursor aweme_id) = ''/aweme/v1/web/comment/list/reply/''"
| "op_uri (GetUserInfo sec_user_id) = ''/aweme/v1/web/user/profile/other/''"
| "op_uri (GetUserAwemePosts sec_user_id max_cursor) = ''/aweme/v1/web/aweme/post/''"
| "op_uri (GetHomefeedAwemeList tag_id refresh_index count) = ''/aweme/v1/web/module/feed/''"

text \<open>
  \<^verbatim>\<open>self.common_verify_params.verify_fp\<close>: an \<open>AttributeError\<close> when the client was given
  no verify parameters.
\<close>

definition verify_fp_of :: "env \<Rightarrow> exn + string" where
  "verify_fp_of env =
     (case common_verify_params env of
        None \<Rightarrow> Inl (AttributeError ''NoneType object has no attribute verify_fp'')
      | Some c \<Rightarrow> Inr (verify_fp c))"

text \<open>A JSON string: the text between double quotes.\<close>

definition json_string :: "string \<Rightarrow> string" where
  "json_string s = [CHR 0x22] @ s @ [CHR 0x22]"

text \<open>
  The parameters each operation builds, every value as \<^verbatim>\<open>urlencode\<close> prints it. The
  keyword search adds \<^verbatim>\<open>filter_selected\<close> (the output of \<^verbatim>\<open>json.dumps\<close> with the
  separators \<^verbatim>\<open>,\<close> and \<^verbatim>\<open>:\<close>) when a sort order or a publish time is chosen. The item
  detail and the two comment operations add the verify parameters.
\<close>

definition search_params ::
  "string \<Rightarrow> int \<Rightarrow> SearchChannelType \<Rightarrow> SearchSortType \<Rightarrow> PublishTimeType \<Rightarrow> string \<Rightarrow> params" where
  "search_params keyword offset search_channel sort_type publish_time search_id =
     (let query_params = map_of
            [(''search_channel'', search_channel_value search_channel),
             (''enable_history'', ''1''), (''keyword'', keyword),
             (''search_source'', ''tab_search''), (''query_correct_type'', ''1''),
             (''is_filter_search'', ''0''), (''from_group_id'', ''7378810571505847586''),
             (''offset'', str_int offset), (''count'', ''10''),
             (''need_filter_settings'', ''1''), (''list_type'', ''multi''),
             (''search_id'', search_id)]
      in if sort_type_value sort_type \<noteq> sort_type_value SORT_GENERAL
            \<or> publish_time_value publish_time \<noteq> publish_time_value UNLIMITED
         then query_params
                (''filter_selected'' \<mapsto>
                   ''{'' @ json_string ''sort_type'' @ '':''
                     @ json_string (str_int (sort_type_value sort_type)) @ '',''
                     @ json_string ''publish_time'' @ '':''
                     @ json_string (str_int (publish_time_value publish_time)) @ ''}'',
                 ''is_filter_search'' \<mapsto> ''1'',
                 ''search_source'' \<mapsto> ''tab_search'')
         else query_params)"

definition homefeed_params :: "int \<Rightarrow> int \<Rightarrow> int \<Rightarrow> params" where
  "homefeed_params tag_id refresh_index count = map_of
     [(''device_platform'', ''webapp''), (''aid'', ''6383''), (''channel'', ''channel_pc_web''),
      (''module_id'', ''3003101''), (''count'', str_int count), (''filterGids'', []),
      (''presented_ids'', []), (''refresh_index'', str_int refresh_index), (''refer_id'', []),
      (''refer_type'', ''10''),
      (''awemePcRecRawData'',
         ''{'' @ json_string ''is_xigua_user'' @ '':0,'' @ json_string ''is_client'' @ '':false}''),
      (''Seo-Flag'', ''0''), (''install_time'', ''1749390216''), (''tag_id'', str_int tag_id),
      (''use_lite_type'', ''0''), (''xigua_user'', ''0''), (''pc_client_type'', ''1''),
      (''pc_libra_divert'', ''Mac''), (''update_version_code'', ''170400''),
      (''support_h265'', ''1''), (''support_dash'', ''1''), (''version_code'', ''170400''),
      (''version_name'', ''17.4.0''), (''cookie_enabled'', ''true''), (''screen_width'', ''2560''),
      (''screen_height'', ''1440''), (''browser_language'', ''en''),
      (''browser_platform'', ''MacIntel''), (''browser_name'', ''Chrome''),
      (''browser_version'', ''135.0.0.0''), (''browser_online'', ''true''),
      (''engine_name'', ''Blink''), (''engine_version'', ''135.0.0.0''), (''os_name'', ''Mac OS''),
      (''os_version'', ''10.15.7''), (''cpu_core_num'', ''10''), (''device_memory'', ''8''),
      (''platform'', ''PC''), (''downlink'', ''10''), (''effective_type'', ''4g''),
      (''round_trip_time'', ''100'')]"

fun op_params :: "env \<Rightarrow> operation \<Rightarrow> exn + params" where
  "op_params env (SearchInfoByKeyword keyword offset search_channel sort_type publish_time search_id) =
     Inr (search_params keyword offset search_channel sort_type publish_time search_id)"
| "op_params env (GetVideoById aweme_id) =
     (case verify_fp_of env of
        Inl e \<Rightarrow> Inl e
      | Inr fp \<Rightarrow>
         Inr ([''aweme_id'' \<mapsto> aweme_id, ''verifyFp'' \<mapsto> fp, ''fp'' \<mapsto> fp] ++ verify_params env))"
| "op_params env (GetAwemeComments aweme_id cursor) =
     (case verify_fp_of env of
        Inl e \<Rightarrow> Inl e
      | Inr fp \<Rightarrow>
         Inr ([''aweme_id'' \<mapsto> aweme_id, ''cursor'' \<mapsto> str_int cursor, ''count'' \<mapsto> ''20'',
               ''item_type'' \<mapsto> ''0'', ''verifyFp'' \<mapsto> fp, ''fp'' \<mapsto> fp] ++ verify_params env))"
| "op_params env (GetSubComments comment_id cursor aweme_id) =
     (case verify_fp_of env of
        Inl e \<Rightarrow> Inl e
      | Inr fp \<Rightarrow>
         Inr ([''comment_id'' \<mapsto> comment_id, ''cursor'' \<mapsto> str_int cursor, ''count'' \<mapsto> ''20'',
               ''item_type'' \<mapsto> ''0'', ''verifyFp'' \<mapsto> fp, ''fp'' \<mapsto> fp] ++ verify_params env))"
| "op_params env (GetUserInfo sec_user_id) =
     (case verify_fp_of env of
        Inl e \<Rightarrow> Inl e
      | Inr fp \<Rightarrow>
         Inr [''sec_user_id'' \<mapsto> sec_user_id, ''publish_video_strategy_type'' \<mapsto> ''2'',
              ''personal_center_strategy'' \<mapsto> ''1'', ''verifyFp'' \<mapsto> fp, ''fp'' \<mapsto> fp])"
| "op_params env (GetUserAwemePosts sec_user_id max_cursor) =
     (case verify_fp_of env of
        Inl e \<Rightarrow> Inl e
      | Inr fp \<Rightarrow>
         Inr [''sec_user_id'' \<mapsto> sec_user_id, ''count'' \<mapsto> ''18'', ''max_cursor'' \<mapsto> max_cursor,
              ''locate_query'' \<mapsto> ''false'', ''publish_video_strategy_type'' \<mapsto> ''2'',
              ''verifyFp'' \<mapsto> fp, ''fp'' \<mapsto> fp])"
| "op_params env (GetHomefeedAwemeList tag_id refresh_index count) =
     Inr (homefeed_params tag_id refresh_index count)"

text \<open>
  The item detail, the comment page and the sub-comment page pass a copy of the client's
  headers made before the call (so the Cookie header of the account bound then); the
  others pass none to \<^verbatim>\<open>get\<close>.
\<close>

fun passes_headers :: "operation \<Rightarrow> bool" where
  "passes_headers (GetVideoById aweme_id) = True"
| "passes_headers (GetAwemeComments aweme_id cursor) = True"
| "passes_headers (GetSubComments comment_id cursor aweme_id) = True"
| "passes_headers operation = False"

fun is_homefeed :: "operation \<Rightarrow> bool" where
  "is_homefeed (GetHomefeedAwemeList tag_id refresh_index count) = True"
| "is_homefeed operation = False"

text \<open>
  A typed operation: the parameters, then \<^verbatim>\<open>post\<close> with \<^verbatim>\<open>need_sign=False\<close> for the home
  feed and \<^verbatim>\<open>get\<close> for any other operation.
\<close>

definition fetch :: "env \<Rightarrow> nat \<Rightarrow> operation \<Rightarrow> world \<Rightarrow> json_data outcome" where
  "fetch env d operation w =
     (case op_params env operation of
        Inl e \<Rightarrow> (Some (Inl e), w)
      | Inr prms \<Rightarrow>
         (if is_homefeed operation then post env d (op_uri operation) prms False w
          else get env d (op_uri operation) prms
                 (if passes_headers operation then Some (client_cookies w) else None) w))"

section \<open>Proxy expiry (C9)\<close>

lemma py_int_nonneg: "0 \<le> x \<Longrightarrow> py_int x = \<lfloor>x\<rfloor>"
  by (simp add: py_int_def)

text \<open>
  C9, as stated: \<open>is_expired\<close> holds iff \<open>now \<ge> expiry\<close>. At the instant
  \<open>now = expiry\<close> the code compares \<open>expiry < expiry\<close> and answers False.
\<close>

theorem C9_is_expired_boundary_counterexample:
  "\<not> (is_expired \<lparr>ip = ''10.0.0.1'', port = 8080, user = ''u'', protocol = ''https://'',
        password = ''p'', expired_time_ts = 1700000000\<rparr> 1700000000
      \<longleftrightarrow> (1700000000::real) \<ge> real_of_int 1700000000)"
  by (simp add: is_expired_def py_int_def)

text \<open>
  C9, amended: for a clock reading \<open>now \<ge> 0\<close>, the endpoint counts as expired iff the
  clock has passed the expiry timestamp by at least one whole second, that is iff
  \<open>now \<ge> expiry + 1\<close>; at \<open>now = expiry\<close> it is not yet expired.
\<close>

theorem C9_is_expired_iff:
  assumes "0 \<le> now"
  shows "is_expired p now \<longleftrightarrow> real_of_int (expired_time_ts p) + 1 \<le> now"
proof -
  have "is_expired p now \<longleftrightarrow> expired_time_ts p < \<lfloor>now\<rfloor>"
    using assms by (simp add: is_expired_def py_int_nonneg)
  also have "\<dots> \<longleftrightarrow> expired_time_ts p + 1 \<le> \<lfloor>now\<rfloor>"
    by linarith
  also have "\<dots> \<longleftrightarrow> real_of_int (expired_time_ts p + 1) \<le> now"
    by (simp only: le_floor_iff)
  finally show ?thesis by simp
qed

theorem C9_is_expired_iff_witness:
  "(0::real) \<le> 101 \<and>
   is_expired \<lparr>ip = ''10.0.0.1'', port = 8080, user = ''u'', protocol = ''https://'',
        password = ''p'', expired_time_ts = 100\<rparr> 101"
  using C9_is_expired_iff [of 101 "\<lparr>ip = ''10.0.0.1'', port = 8080, user = ''u'',
        protocol = ''https://'', password = ''p'', expired_time_ts = 100\<rparr>"]
  by simp

section \<open>Invalidation of a credential (C7)\<close>

text \<open>A pool holding one account, bound to nothing, at clock 1000 s.\<close>

definition one_account_world :: world where
  "one_account_world =
     \<lparr>objs = (\<lambda>_. \<lparr>acct_id = 1, account_name = ''a1'', cookies = ''sid=1'',
                  platform_name = ''dy'', status = 0, invalid_timestamp = 0\<rparr>),
      n_objs = 1, account_list = [0],
      xlsx = Inr [\<lparr>r_id = Some 1, r_account_name = Some ''a1'', r_cookies = Some ''sid=1''\<rparr>],
      proxy_list = [], pairs = (\<lambda>_. (0, None)), n_pairs = 0, account_info = None,
      http_client = None,
      clock = 1000, n_requests = 0, n_provider_calls = 0, n_choices = 0, trace = []\<rparr>"

text \<open>
  C7, as stated: the second invalidation is a no-op. Invalidate the account at
  clock 1000 s, wait 10 s, invalidate it again: the recorded invalidation time moves
  from 1000000 ms to 1010000 ms, so the pool after the second call differs from the pool
  after the first.
\<close>

theorem C7_second_invalidation_counterexample:
  "pool_accounts (pool_mark_account_invalid 0 (sleep 10 (pool_mark_account_invalid 0 one_account_world)))
     \<noteq> pool_accounts (pool_mark_account_invalid 0 one_account_world)
   \<and> map invalid_timestamp (pool_accounts (pool_mark_account_invalid 0 one_account_world)) = [1000000]
   \<and> map invalid_timestamp
        (pool_accounts (pool_mark_account_invalid 0 (sleep 10 (pool_mark_account_invalid 0 one_account_world))))
       = [1010000]"
  by (simp add: pool_accounts_def pool_mark_account_invalid_def pool_update_account_status_def
      update_account_status_def get_current_timestamp_def py_int_def sleep_def emit_def
      one_account_world_def)

text \<open>
  C7, amended: invalidation is idempotent on the status only. After a first invalidation
  of the account \<open>a\<close>, a second one at clock \<open>t\<close> leaves the status INVALID and
  leaves every other account, the account list and the external sheet as they were, but
  it overwrites the recorded invalidation time with the time of the second call; neither
  call writes the sheet.
\<close>

theorem C7_invalidate_twice:
  "status (objs (pool_mark_account_invalid a w) a) = status_value INVALID
   \<and> objs (pool_mark_account_invalid a ((pool_mark_account_invalid a w)\<lparr>clock := t\<rparr>))
       = (objs (pool_mark_account_invalid a w))
           (a := (objs (pool_mark_account_invalid a w) a)\<lparr>invalid_timestamp := get_current_timestamp t\<rparr>)
   \<and> account_list (pool_mark_account_invalid a ((pool_mark_account_invalid a w)\<lparr>clock := t\<rparr>))
       = account_list w
   \<and> xlsx (pool_mark_account_invalid a w) = xlsx w
   \<and> xlsx (pool_mark_account_invalid a ((pool_mark_account_invalid a w)\<lparr>clock := t\<rparr>)) = xlsx w"
  by (simp add: pool_mark_account_invalid_def pool_update_account_status_def
      update_account_status_def emit_def fun_eq_iff)

section \<open>Comment crawling (\<^verbatim>\<open>douyin/processors/comment_processor.py\<close>)\<close>

subsection \<open>The checkpoint (\<^verbatim>\<open>model/m_checkpoint.py\<close>) and its store\<close>








subsection \<open>The processor\<close>

record DouyinAwemeComment =
  comment_id :: string
  sub_comment_count :: nat











subsection \<open>The cap on comments and the checkpoint (C10)\<close>















section \<open>The search handler (\<^verbatim>\<open>douyin/handlers/search_handler.py\<close>)\<close>

text \<open>
  What leaves a \<^verbatim>\<open>try\<close> block of the handler: \<^verbatim>\<open>KeyboardInterrupt\<close> (not an
  \<^verbatim>\<open>Exception\<close>) or an exception.
\<close>

datatype raised = KeyboardInterrupt | Raised exn

record post_item =
  item_aweme_id :: string
  item_extracted :: bool

text \<open>
  An item of the result list: the \<^verbatim>\<open>aweme_id\<close> found for it (empty when the item has
  none or has no \<^verbatim>\<open>aweme_info\<close>), and whether the extractor makes a video of it.

  One answer to \<^verbatim>\<open>search_info_by_keyword\<close> followed by the rest of the iteration: the
  call raises, or returns a document (\<open>res_has_data\<close>: the key \<^verbatim>\<open>data\<close> is there;
  \<open>res_logid\<close>: \<^verbatim>\<open>extra.logid\<close>; \<open>res_items\<close>: the list under \<^verbatim>\<open>data\<close>), after which
  \<^verbatim>\<open>batch_get_aweme_comments\<close> for the page returns or raises (\<open>res_comments\<close>).
\<close>

record search_result =
  res_has_data :: bool
  res_logid :: string
  res_items :: "post_item list"
  res_comments :: "raised option"

datatype search_answer = SearchRaises raised | SearchReturns search_result

record search_checkpoint =
  cp_id :: "string option"
  current_search_keyword :: "string option"
  current_search_page :: int
  current_search_id :: "string option"

record search_config =
  CRAWLER_MAX_NOTES_COUNT :: int
  ENABLE_CHECKPOINT :: bool
  handler_checkpoint_manager :: bool
  note_is_crawled :: "string \<Rightarrow> bool"

datatype handler_event =
    SearchCall string int string
  | StoreAweme string
  | PrintInterruptInfo string int string int
  | UpdateCheckpoint string int string
  | PrintSuccess int

text \<open>
  \<open>SearchCall keyword offset search_id\<close>: the request of a result page;
  \<open>PrintInterruptInfo reason count keyword page\<close>: \<^verbatim>\<open>print_interrupt_info\<close> with the
  checkpoint snapshot and the counters; \<open>UpdateCheckpoint keyword page search_id\<close>: the
  \<^verbatim>\<open>finally\<close> clause writing the checkpoint; \<open>PrintSuccess count\<close>: the last line of
  \<^verbatim>\<open>search\<close>.
\<close>

record handler_state =
  checkpoint :: search_checkpoint
  events :: "handler_event list"

definition log_event :: "handler_event \<Rightarrow> handler_state \<Rightarrow> handler_state" where
  "log_event ev st = st\<lparr>events := events st @ [ev]\<rparr>"

definition checkpoint_active :: "search_config \<Rightarrow> handler_state \<Rightarrow> bool" where
  "checkpoint_active cfg st =
     (ENABLE_CHECKPOINT cfg \<and> handler_checkpoint_manager cfg
      \<and> (case cp_id (checkpoint st) of None \<Rightarrow> False | Some i \<Rightarrow> i \<noteq> []))"

text \<open>The \<^verbatim>\<open>for post_item in post_item_list\<close> loop; the count is \<^verbatim>\<open>saved_aweme_count\<close>.\<close>

fun process_items ::
  "search_config \<Rightarrow> post_item list \<Rightarrow> int \<Rightarrow> handler_state \<Rightarrow> int \<times> handler_state" where
  "process_items cfg [] saved_aweme_count st = (saved_aweme_count, st)"
| "process_items cfg (post_item # items) saved_aweme_count st =
     (if item_aweme_id post_item = [] then process_items cfg items saved_aweme_count st
      else if checkpoint_active cfg st \<and> note_is_crawled cfg (item_aweme_id post_item)
      then process_items cfg items (saved_aweme_count + 1) st
      else if item_extracted post_item
      then process_items cfg items (saved_aweme_count + 1)
             (log_event (StoreAweme (item_aweme_id post_item)) st)
      else process_items cfg items saved_aweme_count st)"

text \<open>The \<^verbatim>\<open>finally\<close> clause of an iteration.\<close>

definition finally_update ::
  "search_config \<Rightarrow> string \<Rightarrow> int \<Rightarrow> string \<Rightarrow> handler_state \<Rightarrow> handler_state" where
  "finally_update cfg keyword page dy_search_id st =
     (if checkpoint_active cfg st
      then log_event (UpdateCheckpoint keyword page dy_search_id)
             (st\<lparr>checkpoint := (checkpoint st)
                   \<lparr>current_search_keyword := Some keyword, current_search_page := page,
                    current_search_id := Some dy_search_id\<rparr>\<rparr>)
      else st)"

text \<open>
  How the \<^verbatim>\<open>while\<close> loop of one keyword is left: its condition fails or a \<^verbatim>\<open>break\<close>
  runs (\<open>LoopDone\<close>), the \<^verbatim>\<open>except Exception\<close> clause runs its \<^verbatim>\<open>return\<close>
  (\<open>Returned\<close>), or the \<^verbatim>\<open>except KeyboardInterrupt\<close> clause raises again (\<open>Interrupted\<close>).
\<close>

datatype loop_exit = LoopDone | Returned | Interrupted

definition dy_limit_count :: int where
  "dy_limit_count = 20"

text \<open>
  The \<^verbatim>\<open>while saved_aweme_count < config.CRAWLER_MAX_NOTES_COUNT\<close> loop for one keyword.
  The answers of the client are a script, one entry per iteration; an iteration past the
  end of the script has no answer and the model does not return (\<open>None\<close>). The loop
  state is \<open>(page, dy_search_id, saved_aweme_count)\<close>; the rest of the script is handed
  back.
\<close>

fun keyword_loop ::
  "search_config \<Rightarrow> string \<Rightarrow> search_answer list \<Rightarrow> int \<times> string \<times> int \<Rightarrow> handler_state
     \<Rightarrow> (loop_exit \<times> int \<times> search_answer list \<times> handler_state) option" where
  "keyword_loop cfg keyword script (page, dy_search_id, saved_aweme_count) st =
     (if \<not> saved_aweme_count < CRAWLER_MAX_NOTES_COUNT cfg
      then Some (LoopDone, saved_aweme_count, script, st)
      else
        (case script of
           [] \<Rightarrow> None
         | answer # script' \<Rightarrow>
            (let st1 = log_event (SearchCall keyword ((page - 1) * dy_limit_count) dy_search_id) st in
             case answer of
               SearchRaises KeyboardInterrupt \<Rightarrow>
                Some (Interrupted, saved_aweme_count, script',
                      finally_update cfg keyword page dy_search_id
                        (log_event (PrintInterruptInfo ''KeyboardInterrupt'' saved_aweme_count keyword page) st1))
             | SearchRaises (Raised ex) \<Rightarrow>
                Some (Returned, saved_aweme_count, script',
                      finally_update cfg keyword page dy_search_id
                        (log_event (PrintInterruptInfo (take 100 (exn_str ex)) saved_aweme_count keyword page) st1))
             | SearchReturns posts_res \<Rightarrow>
                (if \<not> res_has_data posts_res
                 then Some (LoopDone, saved_aweme_count, script',
                            finally_update cfg keyword page dy_search_id st1)
                 else if res_items posts_res = []
                 then Some (LoopDone, saved_aweme_count, script',
                            finally_update cfg keyword page (res_logid posts_res) st1)
                 else
                   (case process_items cfg (res_items posts_res) saved_aweme_count st1 of
                      (saved1, st2) \<Rightarrow>
                       (case res_comments posts_res of
                          Some KeyboardInterrupt \<Rightarrow>
                           Some (Interrupted, saved1, script',
                                 finally_update cfg keyword page (res_logid posts_res)
                                   (log_event (PrintInterruptInfo ''KeyboardInterrupt'' saved1 keyword page) st2))
                        | Some (Raised ex) \<Rightarrow>
                           Some (Returned, saved1, script',
                                 finally_update cfg keyword page (res_logid posts_res)
                                   (log_event (PrintInterruptInfo (take 100 (exn_str ex)) saved1 keyword page) st2))
                        | None \<Rightarrow>
                           keyword_loop cfg keyword script' (page + 1, res_logid posts_res, saved1)
                             (finally_update cfg keyword (page + 1) (res_logid posts_res) st2)))))))"

text \<open>
  The \<^verbatim>\<open>for idx, keyword in enumerate(keyword_list, 1)\<close> loop of \<^verbatim>\<open>search\<close>; the third
  argument is the \<^verbatim>\<open>saved_aweme_count\<close> left by the previous keyword (printed at the
  end). The result says how \<^verbatim>\<open>search\<close> ends: \<open>None\<close> for a return, \<open>Some
  KeyboardInterrupt\<close> for the interrupt raised again.
\<close>

fun search_keywords ::
  "search_config \<Rightarrow> string list \<Rightarrow> int \<Rightarrow> search_answer list \<Rightarrow> handler_state
     \<Rightarrow> (raised option \<times> search_answer list \<times> handler_state) option" where
  "search_keywords cfg [] saved_aweme_count script st =
     Some (None, script, log_event (PrintSuccess saved_aweme_count) st)"
| "search_keywords cfg (keyword # keyword_list) saved_aweme_count script st =
     (let same = (current_search_keyword (checkpoint st) = Some keyword);
          page = (if same then current_search_page (checkpoint st) else 1);
          dy_search_id = (if same then (case current_search_id (checkpoint st) of
                                          Some i \<Rightarrow> i | None \<Rightarrow> [])
                          else [])
      in case keyword_loop cfg keyword script (page, dy_search_id, (page - 1) * dy_limit_count) st of
           None \<Rightarrow> None
         | Some (LoopDone, saved, script', st') \<Rightarrow> search_keywords cfg keyword_list saved script' st'
         | Some (Returned, saved, script', st') \<Rightarrow> Some (None, script', st')
         | Some (Interrupted, saved, script', st') \<Rightarrow> Some (Some KeyboardInterrupt, script', st'))"

text \<open>
  \<^verbatim>\<open>search\<close>, once the keyword list is read and the checkpoint is loaded or created:
  \<^verbatim>\<open>CRAWLER_MAX_NOTES_COUNT\<close> is raised to 20 when smaller, an empty keyword list returns
  at once.
\<close>

definition search ::
  "search_config \<Rightarrow> string list \<Rightarrow> search_answer list \<Rightarrow> handler_state
     \<Rightarrow> (raised option \<times> search_answer list \<times> handler_state) option" where
  "search cfg keyword_list script st =
     (let cfg1 = (if CRAWLER_MAX_NOTES_COUNT cfg < dy_limit_count
                  then cfg\<lparr>CRAWLER_MAX_NOTES_COUNT := dy_limit_count\<rparr> else cfg)
      in if keyword_list = [] then Some (None, script, st)
         else search_keywords cfg1 keyword_list 0 script st)"

text \<open>The keywords for which a result page was requested, in order of the requests.\<close>

fun searched_keywords :: "handler_event list \<Rightarrow> string list" where
  "searched_keywords [] = []"
| "searched_keywords (SearchCall keyword offset sid # evs) = keyword # searched_keywords evs"
| "searched_keywords (ev # evs) = searched_keywords evs"


subsection \<open>An exception in one keyword's loop (C8)\<close>

lemma searched_keywords_append:
  "searched_keywords (xs @ ys) = searched_keywords xs @ searched_keywords ys"
  by (induction xs rule: searched_keywords.induct) simp_all

lemma searched_keywords_finally_update:
  "searched_keywords (events (finally_update cfg keyword page sid st)) = searched_keywords (events st)"
  by (simp add: finally_update_def log_event_def searched_keywords_append)

lemma keyword_loop_exception:
  assumes "saved < CRAWLER_MAX_NOTES_COUNT cfg"
  shows "keyword_loop cfg keyword (SearchRaises (Raised ex) # script) (page, sid, saved) st
       = Some (Returned, saved, script,
               finally_update cfg keyword page sid
                 (log_event (PrintInterruptInfo (take 100 (exn_str ex)) saved keyword page)
                    (log_event (SearchCall keyword ((page - 1) * dy_limit_count) sid) st)))"
  using assms by simp

text \<open>
  C8: what the code does. The keyword is not the one saved in the checkpoint, so its loop
  starts at page 1. When the first request for it raises an exception, \<^verbatim>\<open>search\<close> returns:
  the interrupt information is printed, the rest of the script is left unread and no
  other keyword of the list is requested.
\<close>

theorem C8_exception_returns_from_search:
  assumes "current_search_keyword (checkpoint st) \<noteq> Some keyword"
  shows "\<exists>st'. search cfg (keyword # keyword_list) (SearchRaises (Raised ex) # script) st
               = Some (None, script, st')
           \<and> searched_keywords (events st') = searched_keywords (events st) @ [keyword]
           \<and> PrintInterruptInfo (take 100 (exn_str ex)) 0 keyword 1 \<in> set (events st')"
proof -
  define cfg1 where "cfg1 = (if CRAWLER_MAX_NOTES_COUNT cfg < dy_limit_count
                  then cfg\<lparr>CRAWLER_MAX_NOTES_COUNT := dy_limit_count\<rparr> else cfg)"
  have pos: "0 < CRAWLER_MAX_NOTES_COUNT cfg1"
    by (simp add: cfg1_def dy_limit_count_def)
  have loop: "keyword_loop cfg1 keyword (SearchRaises (Raised ex) # script) (1, [], 0) st
       = Some (Returned, 0, script,
               finally_update cfg1 keyword 1 []
                 (log_event (PrintInterruptInfo (take 100 (exn_str ex)) 0 keyword 1)
                    (log_event (SearchCall keyword ((1 - 1) * dy_limit_count) []) st)))"
    using keyword_loop_exception [OF pos] .
  let ?st' = "finally_update cfg1 keyword 1 []
                 (log_event (PrintInterruptInfo (take 100 (exn_str ex)) 0 keyword 1)
                    (log_event (SearchCall keyword ((1 - 1) * dy_limit_count) []) st))"
  have ret: "search cfg (keyword # keyword_list) (SearchRaises (Raised ex) # script) st
               = Some (None, script, ?st')"
    using assms loop unfolding search_def cfg1_def [symmetric]
    by (simp add: Let_def del: keyword_loop.simps)
  have kws: "searched_keywords (events ?st') = searched_keywords (events st) @ [keyword]"
    by (simp add: searched_keywords_finally_update log_event_def searched_keywords_append)
  have printed: "PrintInterruptInfo (take 100 (exn_str ex)) 0 keyword 1 \<in> set (events ?st')"
    by (simp add: finally_update_def log_event_def)
  from ret kws printed show ?thesis by blast
qed

text \<open>
  The failing input: two keywords, no checkpointing; the request for the first keyword
  raises, the platform would have answered the request for the second.
\<close>

definition two_keywords_config :: search_config where
  "two_keywords_config =
     \<lparr>CRAWLER_MAX_NOTES_COUNT = 40, ENABLE_CHECKPOINT = False, handler_checkpoint_manager = False,
      note_is_crawled = (\<lambda>_. False)\<rparr>"

definition fresh_handler_state :: handler_state where
  "fresh_handler_state =
     \<lparr>checkpoint = \<lparr>cp_id = None, current_search_keyword = None, current_search_page = 1,
                    current_search_id = None\<rparr>,
      events = []\<rparr>"

definition one_video_answer :: search_answer where
  "one_video_answer =
     SearchReturns \<lparr>res_has_data = True, res_logid = ''log1'',
                    res_items = [\<lparr>item_aweme_id = ''v1'', item_extracted = True\<rparr>],
                    res_comments = None\<rparr>"

theorem C8_exception_returns_from_search_witness:
  "current_search_keyword (checkpoint fresh_handler_state) \<noteq> Some ''Python''
   \<and> (\<exists>st'. search two_keywords_config [''Python'', ''crawler'']
               [SearchRaises (Raised (RetryError (DataFetchError ''HTTP 500 error''))), one_video_answer]
               fresh_handler_state
             = Some (None, [one_video_answer], st')
           \<and> searched_keywords (events st') = [''Python''])"
proof -
  have h: "current_search_keyword (checkpoint fresh_handler_state) \<noteq> Some ''Python''"
    by (simp add: fresh_handler_state_def)
  from C8_exception_returns_from_search [OF h, of two_keywords_config "[''crawler'']"
        "RetryError (DataFetchError ''HTTP 500 error'')" "[one_video_answer]"]
  have "\<exists>st'. search two_keywords_config [''Python'', ''crawler'']
               [SearchRaises (Raised (RetryError (DataFetchError ''HTTP 500 error''))), one_video_answer]
               fresh_handler_state
             = Some (None, [one_video_answer], st')
           \<and> searched_keywords (events st') = searched_keywords (events fresh_handler_state) @ [''Python'']"
    by blast
  then show ?thesis using h by (simp add: fresh_handler_state_def)
qed

text \<open>
  For comparison, the \<^verbatim>\<open>break\<close> of the same loop (a document without \<^verbatim>\<open>data\<close>) ends
  only the loop of the keyword: the next keyword is requested.
\<close>

lemma no_data_goes_on_to_next_keyword:
  "map_option (\<lambda>(r, script, st). (r, script, searched_keywords (events st)))
     (search two_keywords_config [''Python'', ''crawler'']
        [SearchReturns \<lparr>res_has_data = False, res_logid = [], res_items = [], res_comments = None\<rparr>,
         SearchReturns \<lparr>res_has_data = False, res_logid = [], res_items = [], res_comments = None\<rparr>]
        fresh_handler_state)
   = Some (None, [], [''Python'', ''crawler''])"
  by (simp add: search_def two_keywords_config_def fresh_handler_state_def dy_limit_count_def
      finally_update_def checkpoint_active_def log_event_def Let_def)

section \<open>The concurrency gate (\<^verbatim>\<open>douyin/core.py\<close>, the two processors)\<close>

text \<open>
  \<^verbatim>\<open>DouYinCrawler.__init__\<close> creates two semaphores, each with the value
  \<^verbatim>\<open>config.MAX_CONCURRENCY_NUM\<close>: one is handed to the \<^verbatim>\<open>AwemeProcessor\<close>, one to the
  \<^verbatim>\<open>CommentProcessor\<close>. \<^verbatim>\<open>get_aweme_detail_async_task\<close> and \<^verbatim>\<open>get_comments_async_task\<close>
  run their whole body inside \<^verbatim>\<open>async with semaphore\<close>, and these are the only callers of
  \<^verbatim>\<open>get_video_by_id\<close> and of \<^verbatim>\<open>get_aweme_all_comments\<close>.

  The program counter of a task: it has not passed \<^verbatim>\<open>__aenter__\<close> yet (\<open>Waiting\<close>); it is
  inside the block and has not called the fetch yet (\<open>Entered\<close>); it awaits the fetch
  (\<open>InFlight\<close>); the fetch is over with some outcome and the task is still inside the
  block, in its \<^verbatim>\<open>except\<close> or \<^verbatim>\<open>finally\<close> clause (\<open>Leaving\<close>); it has left the block
  (\<open>Finished\<close>); it was cancelled while waiting in \<^verbatim>\<open>__aenter__\<close> (\<open>CancelledWaiting\<close>).
\<close>

datatype fetch_outcome =
    Succeeded | FoundNothing | RaisedDataFetchError | RaisedKeyError | RaisedOther | WasCancelled















subsection \<open>The bound on fetches in flight (C3)\<close>



















section \<open>What a call leaves unchanged, and what it adds to the trace\<close>

definition new_events :: "(event \<Rightarrow> bool) \<Rightarrow> world \<Rightarrow> world \<Rightarrow> bool" where
  "new_events P w w' = (\<exists>es. trace w' = trace w @ es \<and> list_all P es)"

definition same_identity :: "world \<Rightarrow> world \<Rightarrow> bool" where
  "same_identity w w' =
     (objs w' = objs w \<and> n_objs w' = n_objs w \<and> account_list w' = account_list w
      \<and> xlsx w' = xlsx w \<and> account_info w' = account_info w
      \<and> fst \<circ> pairs w' = fst \<circ> pairs w \<and> n_pairs w' = n_pairs w)"

lemma new_events_refl [simp]: "new_events P w w"
  by (simp add: new_events_def)

lemma new_events_trans: "new_events P w w1 \<Longrightarrow> new_events P w1 w2 \<Longrightarrow> new_events P w w2"
  by (auto simp: new_events_def)

lemma new_events_mono: "new_events P w w' \<Longrightarrow> (\<And>e. P e \<Longrightarrow> Q e) \<Longrightarrow> new_events Q w w'"
  by (auto simp: new_events_def list_all_iff)

lemma new_events_same_trace: "trace w' = trace w \<Longrightarrow> new_events P w w'"
  by (simp add: new_events_def)

lemma new_events_emit: "P ev \<Longrightarrow> trace w1 = trace w \<Longrightarrow> new_events P w (emit ev w1)"
  by (simp add: new_events_def emit_def)

lemma same_identity_refl [simp]: "same_identity w w"
  by (simp add: same_identity_def)

lemma same_identity_trans: "same_identity w w1 \<Longrightarrow> same_identity w1 w2 \<Longrightarrow> same_identity w w2"
  by (simp add: same_identity_def)

lemma retry_loop_rel:
  assumes refl: "\<And>w. R w w"
    and trans: "\<And>a b c. R a b \<Longrightarrow> R b c \<Longrightarrow> R a c"
    and body: "\<And>w r w'. body w = (r, w') \<Longrightarrow> R w w'"
    and slp: "\<And>w. R w (sleep d w)"
  shows "retry_loop k d body w = (r, w') \<Longrightarrow> R w w'"
proof (induction k arbitrary: w)
  case 0
  then show ?case
    by (auto split: prod.splits sum.splits dest: body)
next
  case (Suc k)
  obtain r1 w1 where b: "body w = (r1, w1)" by (cases "body w")
  show ?case
  proof (cases r1)
    case (Inl e)
    with Suc.prems b have "retry_loop k d body (sleep d w1) = (r, w')" by simp
    then have "R (sleep d w1) w'" by (rule Suc.IH)
    with body [OF b] slp [of w1] show ?thesis by (blast intro: trans)
  next
    case (Inr x)
    with Suc.prems b body [OF b] show ?thesis by simp
  qed
qed

lemma tenacity_retry_rel:
  assumes "\<And>w. R w w" "\<And>a b c. R a b \<Longrightarrow> R b c \<Longrightarrow> R a c"
    "\<And>w r w'. body w = (r, w') \<Longrightarrow> R w w'" "\<And>w. R w (sleep d w)"
  shows "tenacity_retry n d body w = (r, w') \<Longrightarrow> R w w'"
  unfolding tenacity_retry_def using retry_loop_rel [of R body d] assms by blast

subsection \<open>The request path keeps the identity\<close>

lemma same_identity_sleep: "same_identity w (sleep d w)"
  by (simp add: same_identity_def sleep_def emit_def)

lemma same_identity_reload_proxies:
  "reload_proxies env w = (r, w') \<Longrightarrow> same_identity w w'"
  by (auto simp: reload_proxies_def same_identity_def Let_def split: sum.splits)

lemma same_identity_get_proxy_body:
  "get_proxy_body env w = (r, w') \<Longrightarrow> same_identity w w'"
  by (auto simp: get_proxy_body_def same_identity_def Let_def reload_proxies_def
      split: sum.splits prod.splits if_splits)

lemma same_identity_get_proxy:
  "get_proxy env w = (r, w') \<Longrightarrow> same_identity w w'"
  unfolding get_proxy_def
  by (rule tenacity_retry_rel [of same_identity "get_proxy_body env" 1])
     (auto intro: same_identity_trans same_identity_get_proxy_body same_identity_sleep)

lemma same_identity_pool_mark_ip_invalid:
  "same_identity w (pool_mark_ip_invalid env ip_info w)"
  by (simp add: pool_mark_ip_invalid_def proxy_pool_mark_ip_invalid_def same_identity_def emit_def
      split: option.splits)

lemma same_identity_check_ip_expired:
  "check_ip_expired env w = (r, w') \<Longrightarrow> same_identity w w'"
proof -
  assume a: "check_ip_expired env w = (r, w')"
  show ?thesis
  proof (cases "account_info w")
    case None
    with a show ?thesis by (simp add: check_ip_expired_def)
  next
    case (Some b)
    show ?thesis
    proof (cases "snd (pairs w b)")
      case None
      with a Some show ?thesis by (simp add: check_ip_expired_def)
    next
      case (Some ip_info)
      note ipi = this
      let ?w1 = "pool_mark_ip_invalid env (Some ip_info) w"
      have s1: "same_identity w ?w1" by (rule same_identity_pool_mark_ip_invalid)
      show ?thesis
      proof (cases "ENABLE_IP_PROXY env \<and> is_expired ip_info (clock w)")
        case False
        with a \<open>account_info w = Some b\<close> ipi show ?thesis
          by (auto simp: check_ip_expired_def)
      next
        case True
        show ?thesis
        proof (cases "proxy_ip_pool_present env")
          case False
          with a True \<open>account_info w = Some b\<close> ipi s1 show ?thesis
            by (auto simp: check_ip_expired_def Let_def)
        next
          case pres: True
          obtain r2 w2 where g: "get_proxy env ?w1 = (r2, w2)" by (cases "get_proxy env ?w1")
          have s2: "same_identity ?w1 w2" using g by (rule same_identity_get_proxy)
          have s12: "same_identity w w2" using s1 s2 by (rule same_identity_trans)
          show ?thesis
          proof (cases r2)
            case (Inl e)
            with a True pres \<open>account_info w = Some b\<close> ipi g s12 show ?thesis
              by (auto simp: check_ip_expired_def Let_def)
          next
            case (Inr p)
            with a True pres \<open>account_info w = Some b\<close> ipi g
            have "w' = reset_http_client (w2\<lparr>pairs := (pairs w2)(b := (fst (pairs w2 b), Some p))\<rparr>)"
              by (auto simp: check_ip_expired_def Let_def)
            with s12 show ?thesis
              by (auto simp: same_identity_def reset_http_client_def fun_eq_iff)
          qed
        qed
      qed
    qed
  qed
qed

lemma same_identity_request_body:
  "request_body env url prms headers w = (r, w') \<Longrightarrow> same_identity w w'"
proof -
  assume a: "request_body env url prms headers w = (r, w')"
  obtain r1 w1 where c: "check_ip_expired env w = (r1, w1)" by (cases "check_ip_expired env w")
  have s1: "same_identity w w1" using c by (rule same_identity_check_ip_expired)
  show ?thesis
  proof (cases r1)
    case (Inl e)
    with a c s1 show ?thesis by (simp add: request_body_def)
  next
    case (Inr u)
    with a c have "same_identity w1 w'"
      by (auto simp: request_body_def Let_def same_identity_def emit_def split: sum.splits if_splits)
    with s1 show ?thesis by (rule same_identity_trans)
  qed
qed

lemma same_identity_request:
  "request env url prms headers w = (r, w') \<Longrightarrow> same_identity w w'"
  unfolding request_def
  by (rule tenacity_retry_rel [of same_identity "request_body env url prms headers" 1])
     (auto intro: same_identity_trans same_identity_request_body same_identity_sleep)

lemma same_identity_sign_logic:
  "sign_logic env req w = (r, w') \<Longrightarrow> same_identity w w'"
proof -
  assume a: "sign_logic env req w = (r, w')"
  have body: "\<And>w r w'. javascript_sign_body env req w = (r, w') \<Longrightarrow> same_identity w w'"
    by (auto simp: javascript_sign_body_def split: sum.splits)
  have js: "\<And>w r w'. javascript_sign env req w = (r, w') \<Longrightarrow> same_identity w w'"
    unfolding javascript_sign_def
    by (rule tenacity_retry_rel [of same_identity "javascript_sign_body env req" "1/2"])
       (auto intro: same_identity_trans body same_identity_sleep)
  have e: "same_identity w (emit (SignCall req) w)"
    by (simp add: same_identity_def emit_def)
  obtain r1 w1 where j1: "javascript_sign env req (emit (SignCall req) w) = (r1, w1)"
    by (cases "javascript_sign env req (emit (SignCall req) w)")
  have s1: "same_identity w w1" using e js [OF j1] by (rule same_identity_trans)
  show ?thesis
  proof (cases "\<exists>x. r1 = Inl (RetryError x)")
    case True
    then obtain x where "r1 = Inl (RetryError x)" by blast
    with a j1 have "javascript_sign env req w1 = (r, w')" by (simp add: sign_logic_def)
    from s1 js [OF this] show ?thesis by (rule same_identity_trans)
  next
    case False
    with a j1 have "w' = w1"
      by (auto simp: sign_logic_def split: sum.splits exn.splits)
    with s1 show ?thesis by simp
  qed
qed

lemma same_identity_pre_url_params:
  "pre_url_params env uri prms w = (r, w') \<Longrightarrow> same_identity w w'"
  by (auto simp: pre_url_params_def Let_def split: prod.splits sum.splits if_splits
      dest: same_identity_sign_logic)

lemma same_identity_get_try:
  "get_try env uri prms headers w = (rp, w') \<Longrightarrow> same_identity w w'"
  by (auto simp: get_try_def split: prod.splits sum.splits
      dest: same_identity_pre_url_params same_identity_request intro: same_identity_trans)

lemma same_identity_sign_and_request:
  "sign_and_request env uri prms headers w = (r, w') \<Longrightarrow> same_identity w w'"
  by (auto simp: sign_and_request_def split: prod.splits sum.splits
      dest!: same_identity_pre_url_params same_identity_request intro: same_identity_trans)

lemma same_identity_wait_and_retry:
  "wait_and_retry env uri prms headers w = (r, w') \<Longrightarrow> same_identity w w'"
  unfolding wait_and_retry_def
  by (blast intro: same_identity_trans [OF same_identity_sleep] dest: same_identity_sign_and_request)

lemma same_identity_cookies: "same_identity w w' \<Longrightarrow> client_cookies w' = client_cookies w"
  by (auto simp: same_identity_def client_cookies_def fun_eq_iff split: option.splits)

subsection \<open>What the request path adds to the trace\<close>

text \<open>
  \<open>on_wire S D\<close>: an event of the request path (a sleep, a proxy marked invalid, a call
  of the signer with a request satisfying \<open>S\<close>, an HTTP request satisfying \<open>D\<close>); not an
  event of the account pool.
\<close>

fun on_wire ::
  "(DouyinSignRequest \<Rightarrow> bool) \<Rightarrow> (string \<Rightarrow> string \<Rightarrow> IpInfoModel option \<Rightarrow> string option \<Rightarrow> bool)
     \<Rightarrow> event \<Rightarrow> bool" where
  "on_wire S D (Dispatch u c p t) = D u c p t"
| "on_wire S D (Sleep d) = True"
| "on_wire S D (SignCall req) = S req"
| "on_wire S D (IpInvalid p) = True"
| "on_wire S D Acquire = False"
| "on_wire S D Reload = False"
| "on_wire S D (Invalidate a) = False"

lemma on_wire_mono:
  "on_wire S D e \<Longrightarrow> (\<And>req. S req \<Longrightarrow> S' req) \<Longrightarrow> (\<And>u c p t. D u c p t \<Longrightarrow> D' u c p t)
   \<Longrightarrow> on_wire S' D' e"
  by (cases e) auto

lemma new_events_sleep: "new_events (on_wire S D) w (sleep d w)"
  by (simp add: new_events_def sleep_def emit_def)

lemma wire_get_proxy_body:
  "get_proxy_body env w = (r, w') \<Longrightarrow> new_events (on_wire S D) w w'"
  by (auto simp: get_proxy_body_def Let_def reload_proxies_def new_events_def
      split: sum.splits prod.splits if_splits)

lemma wire_get_proxy:
  "get_proxy env w = (r, w') \<Longrightarrow> new_events (on_wire S D) w w'"
  unfolding get_proxy_def
  by (rule tenacity_retry_rel [of "new_events (on_wire S D)" "get_proxy_body env" 1])
     (auto intro: new_events_trans wire_get_proxy_body new_events_sleep)

lemma wire_pool_mark_ip_invalid:
  "new_events (on_wire S D) w (pool_mark_ip_invalid env ip_info w)"
  by (simp add: pool_mark_ip_invalid_def proxy_pool_mark_ip_invalid_def new_events_def emit_def
      split: option.splits)

lemma wire_check_ip_expired:
  assumes a: "check_ip_expired env w = (r, w')"
  shows "new_events (on_wire S D) w w'"
proof (cases "account_info w")
  case None
  with a show ?thesis by (simp add: check_ip_expired_def)
next
  case (Some b)
  show ?thesis
  proof (cases "snd (pairs w b)")
    case None
    with a Some show ?thesis by (simp add: check_ip_expired_def)
  next
    case (Some ip_info)
    note ipi = this
    let ?w1 = "pool_mark_ip_invalid env (Some ip_info) w"
    have s1: "new_events (on_wire S D) w ?w1" by (rule wire_pool_mark_ip_invalid)
    show ?thesis
    proof (cases "ENABLE_IP_PROXY env \<and> is_expired ip_info (clock w)")
      case False
      with a \<open>account_info w = Some b\<close> ipi show ?thesis
        by (auto simp: check_ip_expired_def)
    next
      case True
      show ?thesis
      proof (cases "proxy_ip_pool_present env")
        case False
        with a True \<open>account_info w = Some b\<close> ipi s1 show ?thesis
          by (auto simp: check_ip_expired_def Let_def)
      next
        case pres: True
        obtain r2 w2 where g: "get_proxy env ?w1 = (r2, w2)" by (cases "get_proxy env ?w1")
        have s12: "new_events (on_wire S D) w w2"
          using s1 wire_get_proxy [OF g] by (rule new_events_trans)
        show ?thesis
        proof (cases r2)
          case (Inl e)
          with a True pres \<open>account_info w = Some b\<close> ipi g s12 show ?thesis
            by (auto simp: check_ip_expired_def Let_def)
        next
          case (Inr p)
          with a True pres \<open>account_info w = Some b\<close> ipi g
          have "w' = reset_http_client (w2\<lparr>pairs := (pairs w2)(b := (fst (pairs w2 b), Some p))\<rparr>)"
            by (auto simp: check_ip_expired_def Let_def)
          with s12 show ?thesis
            by (auto simp: new_events_def reset_http_client_def)
        qed
      qed
    qed
  qed
qed

text \<open>The cookie a request carries: the caller's header, else the bound account's.\<close>

definition sent_cookie :: "string option \<Rightarrow> world \<Rightarrow> string" where
  "sent_cookie headers w = (case headers of Some c \<Rightarrow> c | None \<Rightarrow> client_cookies w)"

lemma same_identity_sent_cookie: "same_identity w w' \<Longrightarrow> sent_cookie headers w' = sent_cookie headers w"
  by (simp add: sent_cookie_def same_identity_cookies split: option.splits)

lemma wire_request_body:
  assumes a: "request_body env url prms headers w = (r, w')"
  shows "new_events (on_wire S (\<lambda>u c p t. u = url \<and> c = sent_cookie headers w \<and> t = prms ''a_bogus'')) w w'"
proof -
  let ?D = "\<lambda>u c p t. u = url \<and> c = sent_cookie headers w \<and> t = prms ''a_bogus''"
  obtain r1 w1 where c: "check_ip_expired env w = (r1, w1)" by (cases "check_ip_expired env w")
  have s1: "new_events (on_wire S ?D) w w1" using c by (rule wire_check_ip_expired)
  have ck: "client_cookies w1 = client_cookies w"
    using same_identity_check_ip_expired [OF c] by (rule same_identity_cookies)
  show ?thesis
  proof (cases r1)
    case (Inl e)
    with a c s1 show ?thesis by (simp add: request_body_def)
  next
    case (Inr u)
    with a c ck have "new_events (on_wire S ?D) w1 w'"
      by (auto simp: request_body_def Let_def new_events_def emit_def sent_cookie_def
          split: sum.splits if_splits option.splits)
    with s1 show ?thesis by (rule new_events_trans)
  qed
qed

lemma wire_request:
  "request env url prms headers w = (r, w') \<Longrightarrow>
   new_events (on_wire S (\<lambda>u c p t. u = url \<and> t = prms ''a_bogus'')) w w'"
  unfolding request_def
proof (rule tenacity_retry_rel
        [of "new_events (on_wire S (\<lambda>u c p t. u = url \<and> t = prms ''a_bogus''))"
            "request_body env url prms headers" 1])
  fix w r w'
  assume "request_body env url prms headers w = (r, w')"
  from wire_request_body [OF this, of S]
  show "new_events (on_wire S (\<lambda>u c p t. u = url \<and> t = prms ''a_bogus'')) w w'"
    by (rule new_events_mono) (auto elim: on_wire_mono)
qed (auto intro: new_events_trans new_events_sleep)

text \<open>
  A relation for the whole request path: the identity stays, and every new event is an
  event of the wire: a call of the signer for \<open>uri\<close>, or an HTTP request to \<open>uri\<close> with
  the Cookie header in force (the caller's, else the bound account's).
\<close>

definition wire_only :: "string \<Rightarrow> string option \<Rightarrow> world \<Rightarrow> world \<Rightarrow> bool" where
  "wire_only uri headers w w' =
     (same_identity w w'
      \<and> new_events (on_wire (\<lambda>req. sr_uri req = uri)
                       (\<lambda>u c p t. u = uri \<and> c = sent_cookie headers w)) w w')"

lemma wire_only_refl [simp]: "wire_only uri headers w w"
  by (simp add: wire_only_def)

lemma wire_only_trans:
  "wire_only uri headers a b \<Longrightarrow> wire_only uri headers b c \<Longrightarrow> wire_only uri headers a c"
  unfolding wire_only_def
  using same_identity_sent_cookie [of a b headers]
  by (auto intro: same_identity_trans new_events_trans)

lemma wire_only_sleep: "wire_only uri headers w (sleep d w)"
  by (simp add: wire_only_def same_identity_sleep new_events_sleep)

lemma wire_only_request_body:
  "request_body env uri prms headers w = (r, w') \<Longrightarrow> wire_only uri headers w w'"
  unfolding wire_only_def
  by (auto dest: same_identity_request_body wire_request_body elim!: new_events_mono on_wire_mono)

lemma wire_only_request:
  "request env uri prms headers w = (r, w') \<Longrightarrow> wire_only uri headers w w'"
  unfolding request_def
  by (rule tenacity_retry_rel [of "wire_only uri headers" "request_body env uri prms headers" 1])
     (auto intro: wire_only_trans wire_only_request_body wire_only_sleep)

text \<open>
  \<^verbatim>\<open>DouyinSignLogic.sign\<close>: one call of the signer is logged, followed by the waits of
  tenacity; a response carries what the JavaScript function returned for the request.
\<close>

fun is_sleep :: "event \<Rightarrow> bool" where
  "is_sleep (Sleep d) = True"
| "is_sleep e = False"

definition only_sleeps :: "world \<Rightarrow> world \<Rightarrow> bool" where
  "only_sleeps w w' = (same_identity w w' \<and> new_events is_sleep w w')"

lemma only_sleeps_refl [simp]: "only_sleeps w w"
  by (simp add: only_sleeps_def)

lemma only_sleeps_trans: "only_sleeps a b \<Longrightarrow> only_sleeps b c \<Longrightarrow> only_sleeps a c"
  by (auto simp: only_sleeps_def intro: same_identity_trans new_events_trans)

lemma only_sleeps_sleep: "only_sleeps w (sleep d w)"
proof -
  have "new_events is_sleep w (sleep d w)"
    by (simp add: new_events_def sleep_def emit_def)
  then show ?thesis by (simp add: only_sleeps_def same_identity_sleep)
qed

lemma javascript_sign_trace:
  assumes a: "javascript_sign env req w = (r, w')"
  shows "only_sleeps w w'
         \<and> (case r of Inl e \<Rightarrow> \<exists>x. e = RetryError x \<and> js_get_abogus env req = Inl x
                     | Inr resp \<Rightarrow> js_get_abogus env req = Inr (resp_a_bogus resp) \<and> resp_data resp = None)"
proof -
  let ?ans = "\<lambda>r. case r of Inl e \<Rightarrow> \<exists>x. e = RetryError x \<and> js_get_abogus env req = Inl x
                     | Inr resp \<Rightarrow> js_get_abogus env req = Inr (resp_a_bogus resp) \<and> resp_data resp = None"
  have loop: "retry_loop k (1/2) (javascript_sign_body env req) w = (r, w') \<Longrightarrow>
      only_sleeps w w' \<and> ?ans r" for k w r w'
  proof (induction k arbitrary: w)
    case 0
    then show ?case
      by (auto simp: javascript_sign_body_def split: sum.splits)
  next
    case (Suc k)
    show ?case
    proof (cases "js_get_abogus env req")
      case (Inl e)
      then have "javascript_sign_body env req w = (Inl e, w)"
        by (simp add: javascript_sign_body_def)
      with Suc.prems have "retry_loop k (1/2) (javascript_sign_body env req) (sleep (1/2) w) = (r, w')"
        by simp
      from Suc.IH [OF this] only_sleeps_sleep [of w "1/2"] show ?thesis
        by (blast intro: only_sleeps_trans)
    next
      case (Inr x)
      then have "javascript_sign_body env req w = (Inr \<lparr>resp_a_bogus = x, resp_data = None\<rparr>, w)"
        by (simp add: javascript_sign_body_def)
      with Suc.prems Inr show ?thesis by auto
    qed
  qed
  from a show ?thesis unfolding javascript_sign_def tenacity_retry_def by (rule loop)
qed

lemma sign_logic_trace:
  assumes a: "sign_logic env req w = (r, w')"
  shows "only_sleeps (emit (SignCall req) w) w'
         \<and> (\<forall>resp. r = Inr resp \<longrightarrow>
               js_get_abogus env req = Inr (resp_a_bogus resp) \<and> resp_data resp = None)"
proof -
  obtain r1 w1 where j1: "javascript_sign env req (emit (SignCall req) w) = (r1, w1)"
    by (cases "javascript_sign env req (emit (SignCall req) w)")
  note t1 = javascript_sign_trace [OF j1]
  show ?thesis
  proof (cases "\<exists>x. r1 = Inl (RetryError x)")
    case True
    then obtain x where "r1 = Inl (RetryError x)" by blast
    with a j1 have j2: "javascript_sign env req w1 = (r, w')" by (simp add: sign_logic_def)
    from javascript_sign_trace [OF j2] t1 show ?thesis
      by (auto intro: only_sleeps_trans split: sum.splits)
  next
    case False
    with a j1 have "w' = w1" "r = r1"
      by (auto simp: sign_logic_def split: sum.splits exn.splits)
    with t1 show ?thesis by (auto split: sum.splits)
  qed
qed

lemma only_sleeps_on_wire: "only_sleeps w w' \<Longrightarrow> new_events (on_wire S D) w w'"
proof -
  assume "only_sleeps w w'"
  then have "new_events is_sleep w w'" by (simp add: only_sleeps_def)
  then show ?thesis
  proof (rule new_events_mono)
    fix e assume "is_sleep e" then show "on_wire S D e" by (cases e) auto
  qed
qed

lemma wire_sign_logic:
  assumes a: "sign_logic env req w = (r, w')" and su: "S req"
  shows "new_events (on_wire S D) w w'"
proof -
  have "new_events (on_wire S D) w (emit (SignCall req) w)"
    using su by (simp add: new_events_def emit_def)
  moreover have "new_events (on_wire S D) (emit (SignCall req) w) w'"
    using sign_logic_trace [OF a] by (simp add: only_sleeps_on_wire)
  ultimately show ?thesis by (rule new_events_trans)
qed

text \<open>The request \<^verbatim>\<open>_pre_url_params\<close> hands to the signer.\<close>

definition sign_request_of :: "env \<Rightarrow> string \<Rightarrow> params \<Rightarrow> world \<Rightarrow> DouyinSignRequest" where
  "sign_request_of env uri url_params w =
     \<lparr>sr_uri = uri, sr_query_params = urlencode env (url_params ++ common_params ++ verify_params env),
      sr_user_agent = client_user_agent env, sr_cookies = client_cookies w\<rparr>"

lemma wire_only_pre_url_params:
  assumes a: "pre_url_params env uri prms w = (r, w')"
  shows "wire_only uri headers w w'"
proof -
  let ?req = "sign_request_of env uri prms w"
  obtain r1 w1 where sg: "sign_logic env ?req w = (r1, w1)" by (cases "sign_logic env ?req w")
  from a sg have "w' = w1"
    by (auto simp: pre_url_params_def sign_request_of_def Let_def split: sum.splits if_splits)
  moreover have "same_identity w w1" using sg by (rule same_identity_sign_logic)
  moreover have "new_events (on_wire (\<lambda>req. sr_uri req = uri)
                    (\<lambda>u c p t. u = uri \<and> c = sent_cookie headers w)) w w1"
    using sg by (rule wire_sign_logic) (simp add: sign_request_of_def)
  ultimately show ?thesis by (simp add: wire_only_def)
qed

lemma wire_only_sign_and_request:
  assumes a: "sign_and_request env uri p headers w = (r, w')"
  shows "wire_only uri headers w w'"
proof -
  obtain r1 w1 where p: "pre_url_params env uri p w = (r1, w1)"
    by (cases "pre_url_params env uri p w")
  have s1: "wire_only uri headers w w1" using p by (rule wire_only_pre_url_params)
  show ?thesis
  proof (cases r1)
    case (Inl e)
    with a p s1 show ?thesis by (simp add: sign_and_request_def)
  next
    case (Inr prms2)
    with a p have "request env uri prms2 headers w1 = (r, w')" by (simp add: sign_and_request_def)
    then have "wire_only uri headers w1 w'" by (rule wire_only_request)
    with s1 show ?thesis by (rule wire_only_trans)
  qed
qed

lemma wire_only_get_try:
  assumes a: "get_try env uri p headers w = (rp, w')"
  shows "wire_only uri headers w w'"
proof -
  obtain r1 w1 where p: "pre_url_params env uri p w = (r1, w1)"
    by (cases "pre_url_params env uri p w")
  have s1: "wire_only uri headers w w1" using p by (rule wire_only_pre_url_params)
  show ?thesis
  proof (cases r1)
    case (Inl e)
    with a p s1 show ?thesis by (auto simp: get_try_def)
  next
    case (Inr prms2)
    obtain r2 w2 where rq: "request env uri prms2 headers w1 = (r2, w2)"
      by (cases "request env uri prms2 headers w1")
    with a p Inr have eq: "w' = w2" by (auto simp: get_try_def)
    have "wire_only uri headers w1 w2" using rq by (rule wire_only_request)
    with s1 eq show ?thesis by (auto intro: wire_only_trans)
  qed
qed

subsection \<open>Relations kept by the whole client\<close>

text \<open>
  \<^verbatim>\<open>get\<close> with a relation \<open>R\<close> between the state before and after and a property \<open>K\<close> of
  the parameters: when the \<^verbatim>\<open>try\<close> block, the signing and requesting again, the sleep, the
  marking and the rebinding keep \<open>R\<close> (the first two for parameters with \<open>K\<close>, which the
  \<^verbatim>\<open>try\<close> block hands on), then so does \<^verbatim>\<open>get\<close>, whether it returns or not.
\<close>

lemma rotate_and_retry_rel:
  assumes trans: "\<And>a b c. R a b \<Longrightarrow> R b c \<Longrightarrow> R a c"
    and refl: "\<And>w. R w w"
    and mark: "\<And>b w. R w (client_mark_account_invalid env b w)"
    and rb: "\<And>w r w'. rebind w = (r, w') \<Longrightarrow> R w w'"
    and again: "\<And>w r w'. sign_and_request env uri prms h w = (r, w') \<Longrightarrow> R w w'"
    and a: "rotate_and_retry env rebind uri prms h w = (r, w')"
  shows "R w w'"
proof (cases "account_info w")
  case None
  with a have "w' = w" by (simp add: rotate_and_retry_def)
  then show ?thesis using refl by simp
next
  case (Some b)
  let ?w0 = "client_mark_account_invalid env b w"
  obtain r1 w1 where rr: "rebind ?w0 = (r1, w1)" by (cases "rebind ?w0")
  have s1: "R w w1" using mark [of w b] rb [OF rr] by (rule trans)
  show ?thesis
  proof (cases r1)
    case None
    with a Some rr have "w' = w1" by (simp add: rotate_and_retry_def)
    with s1 show ?thesis by simp
  next
    case r1: (Some x)
    show ?thesis
    proof (cases x)
      case (Inl e)
      with a Some rr r1 have "w' = w1" by (simp add: rotate_and_retry_def)
      with s1 show ?thesis by simp
    next
      case (Inr u)
      obtain r2 w2 where sr: "sign_and_request env uri prms h w1 = (r2, w2)"
        by (cases "sign_and_request env uri prms h w1")
      with a Some rr r1 Inr have "w' = w2" by (simp add: rotate_and_retry_def)
      with s1 again [OF sr] show ?thesis by (auto intro: trans)
    qed
  qed
qed

lemma get_with_rest:
  assumes trans: "\<And>a b c. R a b \<Longrightarrow> R b c \<Longrightarrow> R a c"
    and refl: "\<And>w. R w w"
    and again: "\<And>w r w'. sign_and_request env uri p1 h w = (r, w') \<Longrightarrow> R w w'"
    and slp: "\<And>w. R w (sleep 10 w)"
    and mark: "\<And>b w. R w (client_mark_account_invalid env b w)"
    and rb: "\<And>w r w'. rebind w = (r, w') \<Longrightarrow> R w w'"
    and t: "get_try env uri prms h w = ((r1, p1), w1)"
    and a: "get_with env rebind uri prms h w = (r, w')"
  shows "R w1 w'"
proof (cases r1)
  case (Inr j)
  with a t have "w' = w1" by (simp add: get_with_def)
  then show ?thesis using refl by simp
next
  case (Inl e)
  show ?thesis
  proof (cases "\<exists>x. e = RetryError x")
    case False
    with a t Inl have "w' = w1" by (cases e) (auto simp: get_with_def)
    then show ?thesis using refl by simp
  next
    case True
    then obtain x where ex: "e = RetryError x" by blast
    show ?thesis
    proof (cases "\<not> account_related (exn_str x) \<and> rate_limited (exn_str x)")
      case True
      obtain r2 w2 where sr: "sign_and_request env uri p1 h (sleep 10 w1) = (r2, w2)"
        by (cases "sign_and_request env uri p1 h (sleep 10 w1)")
      with True a t Inl ex have "w' = w2"
        by (simp add: get_with_def wait_and_retry_def)
      with again [OF sr] slp [of w1] show ?thesis by (auto intro: trans)
    next
      case False
      with a t Inl ex have rot: "rotate_and_retry env rebind uri p1 h w1 = (r, w')"
        by (auto simp: get_with_def Let_def split: if_splits)
      from trans refl mark rb again rot show ?thesis by (rule rotate_and_retry_rel)
    qed
  qed
qed

lemma get_with_inv:
  assumes trans: "\<And>a b c. R a b \<Longrightarrow> R b c \<Longrightarrow> R a c"
    and refl: "\<And>w. R w w"
    and tr: "\<And>p w r p1 w'. K p \<Longrightarrow> get_try env uri p h w = ((r, p1), w') \<Longrightarrow> R w w' \<and> K p1"
    and again: "\<And>p w r w'. K p \<Longrightarrow> sign_and_request env uri p h w = (r, w') \<Longrightarrow> R w w'"
    and slp: "\<And>w. R w (sleep 10 w)"
    and mark: "\<And>b w. R w (client_mark_account_invalid env b w)"
    and rb: "\<And>w r w'. rebind w = (r, w') \<Longrightarrow> R w w'"
    and k: "K prms"
    and a: "get_with env rebind uri prms h w = (r, w')"
  shows "R w w'"
proof -
  obtain r1 p1 w1 where t: "get_try env uri prms h w = ((r1, p1), w1)"
    by (cases "get_try env uri prms h w") auto
  from tr [OF k t] have s1: "R w w1" and k1: "K p1" by simp_all
  have "R w1 w'"
    using trans refl again [OF k1] slp mark rb t a by (rule get_with_rest)
  with s1 show ?thesis by (rule trans)
qed

text \<open>
  \<open>client_closed env U R\<close>: the relation \<open>R\<close> is reflexive and transitive and is kept by
  each building block of \<^verbatim>\<open>get\<close> (for the URIs in \<open>U\<close>, which hold the URI of the probe)
  and of \<^verbatim>\<open>update_account_info\<close>. Such a relation is kept by \<^verbatim>\<open>update_account_info\<close> and
  by \<^verbatim>\<open>get\<close> for the URIs in \<open>U\<close>, at every depth, whether they return or not.
\<close>

definition client_closed :: "env \<Rightarrow> string set \<Rightarrow> (world \<Rightarrow> world \<Rightarrow> bool) \<Rightarrow> bool" where
  "client_closed env U R =
     ((\<forall>w. R w w)
      \<and> (\<forall>a b c. R a b \<longrightarrow> R b c \<longrightarrow> R a c)
      \<and> (\<forall>uri prms h w rp w'. uri \<in> U \<longrightarrow> get_try env uri prms h w = (rp, w') \<longrightarrow> R w w')
      \<and> (\<forall>uri prms h w r w'. uri \<in> U \<longrightarrow> sign_and_request env uri prms h w = (r, w') \<longrightarrow> R w w')
      \<and> (\<forall>d w. R w (sleep d w))
      \<and> (\<forall>b w. R w (client_mark_account_invalid env b w))
      \<and> (\<forall>w r w'. get_account_with_ip_info env w = (r, w') \<longrightarrow> R w w')
      \<and> (\<forall>w b. R w (w\<lparr>account_info := Some b\<rparr>))
      \<and> (\<forall>w. R w (reset_http_client w))
      \<and> ''/aweme/v1/web/history/read/'' \<in> U)"

lemma closed_refl: "client_closed env U R \<Longrightarrow> R a a"
  by (simp add: client_closed_def)

lemma closed_trans: "client_closed env U R \<Longrightarrow> R a b \<Longrightarrow> R b c \<Longrightarrow> R a c"
proof -
  assume "client_closed env U R"
  then have "\<forall>a b c. R a b \<longrightarrow> R b c \<longrightarrow> R a c" by (simp add: client_closed_def)
  moreover assume "R a b" "R b c"
  ultimately show ?thesis by fast
qed

lemma closed_try:
  "client_closed env U R \<Longrightarrow> uri \<in> U \<Longrightarrow> get_try env uri prms h w = (rp, w') \<Longrightarrow> R w w'"
proof -
  assume "client_closed env U R"
  then have "\<forall>uri prms h w rp w'. uri \<in> U \<longrightarrow> get_try env uri prms h w = (rp, w') \<longrightarrow> R w w'"
    by (simp add: client_closed_def)
  moreover assume "uri \<in> U" "get_try env uri prms h w = (rp, w')"
  ultimately show ?thesis by fast
qed

lemma closed_again:
  "client_closed env U R \<Longrightarrow> uri \<in> U \<Longrightarrow> sign_and_request env uri prms h w = (r, w') \<Longrightarrow> R w w'"
proof -
  assume "client_closed env U R"
  then have "\<forall>uri prms h w r w'. uri \<in> U \<longrightarrow> sign_and_request env uri prms h w = (r, w') \<longrightarrow> R w w'"
    by (simp add: client_closed_def)
  moreover assume "uri \<in> U" "sign_and_request env uri prms h w = (r, w')"
  ultimately show ?thesis by fast
qed

lemma closed_sleep: "client_closed env U R \<Longrightarrow> R w (sleep d w)"
  by (simp add: client_closed_def)

lemma closed_mark: "client_closed env U R \<Longrightarrow> R w (client_mark_account_invalid env b w)"
  by (simp add: client_closed_def)

lemma closed_acquire:
  "client_closed env U R \<Longrightarrow> get_account_with_ip_info env w = (r, w') \<Longrightarrow> R w w'"
proof -
  assume "client_closed env U R"
  then have "\<forall>w r w'. get_account_with_ip_info env w = (r, w') \<longrightarrow> R w w'"
    by (simp add: client_closed_def)
  moreover assume "get_account_with_ip_info env w = (r, w')"
  ultimately show ?thesis by fast
qed

lemma closed_bind: "client_closed env U R \<Longrightarrow> R w (w\<lparr>account_info := Some b\<rparr>)"
  by (simp add: client_closed_def)

lemma closed_reset: "client_closed env U R \<Longrightarrow> R w (reset_http_client w)"
  by (simp add: client_closed_def)

lemma closed_probe_uri: "client_closed env U R \<Longrightarrow> ''/aweme/v1/web/history/read/'' \<in> U"
  by (simp add: client_closed_def)

lemma get_with_rel:
  assumes cl: "client_closed env U R"
    and rb: "\<And>w r w'. rebind w = (r, w') \<Longrightarrow> R w w'"
    and u: "uri \<in> U"
    and a: "get_with env rebind uri prms h w = (r, w')"
  shows "R w w'"
proof (rule get_with_inv [of R "\<lambda>p. True" env uri h rebind prms w r w'])
  show "\<And>a b c. R a b \<Longrightarrow> R b c \<Longrightarrow> R a c" using cl by (rule closed_trans)
  show "\<And>w. R w w" using cl by (rule closed_refl)
  show "\<And>p w r p1 w'. True \<Longrightarrow> get_try env uri p h w = ((r, p1), w') \<Longrightarrow> R w w' \<and> True"
    using cl u by (simp add: closed_try)
  show "\<And>p w r w'. True \<Longrightarrow> sign_and_request env uri p h w = (r, w') \<Longrightarrow> R w w'"
    using cl u by (simp add: closed_again)
  show "\<And>w. R w (sleep 10 w)" using cl by (rule closed_sleep)
  show "\<And>b w. R w (client_mark_account_invalid env b w)" using cl by (rule closed_mark)
  show "\<And>w r w'. rebind w = (r, w') \<Longrightarrow> R w w'" by (rule rb)
  show True by simp
  show "get_with env rebind uri prms h w = (r, w')" by (rule a)
qed

lemma pong_with_rel:
  assumes cl: "client_closed env U R"
    and g: "\<And>uri prms h w r w'. uri \<in> U \<Longrightarrow> get_fn uri prms h w = (r, w') \<Longrightarrow> R w w'"
    and a: "pong_with get_fn w = (ok, w')"
  shows "R w w'"
proof -
  have pu: "''/aweme/v1/web/history/read/'' \<in> U" using cl by (rule closed_probe_uri)
  obtain r1 w1 where gg: "get_fn ''/aweme/v1/web/history/read/'' history_params None w = (r1, w1)"
    by (cases "get_fn ''/aweme/v1/web/history/read/'' history_params None w")
  with a have "w' = w1"
    by (auto simp: pong_with_def split: option.splits sum.splits)
  with g [OF pu gg] show ?thesis by simp
qed

lemma update_loop_rel:
  assumes cl: "client_closed env U R"
    and pg: "\<And>w ok w'. png w = (ok, w') \<Longrightarrow> R w w'"
  shows "update_loop env png n w = (ok, w') \<Longrightarrow> R w w'"
proof (induction n arbitrary: w)
  case 0
  then show ?case using closed_refl [OF cl] by simp
next
  case (Suc left)
  obtain r1 w1 where acq: "get_account_with_ip_info env w = (r1, w1)"
    by (cases "get_account_with_ip_info env w")
  have s1: "R w w1" using cl acq by (rule closed_acquire)
  show ?case
  proof (cases r1)
    case (Inl e)
    let ?w2 = "if 0 < left then sleep 2 w1 else w1"
    from Suc.prems acq Inl have "update_loop env png left ?w2 = (ok, w')" by simp
    then have "R ?w2 w'" by (rule Suc.IH)
    moreover have "R w1 ?w2" using closed_sleep [OF cl] closed_refl [OF cl] by simp
    ultimately show ?thesis using s1 by (blast intro: closed_trans [OF cl])
  next
    case (Inr b)
    let ?w2 = "if binding_changed w1 b then reset_http_client w1 else w1"
    let ?w3 = "?w2\<lparr>account_info := Some b\<rparr>"
    have s2: "R w1 ?w2" using closed_reset [OF cl] closed_refl [OF cl] by simp
    have s3: "R ?w2 ?w3" using cl by (rule closed_bind)
    have s13: "R w ?w3" using s1 s2 s3 by (blast intro: closed_trans [OF cl])
    obtain ok1 w4 where p: "png ?w3 = (ok1, w4)" by (cases "png ?w3")
    have s4: "R w w4" using s13 pg [OF p] by (rule closed_trans [OF cl])
    show ?thesis
    proof (cases "ok1 = Some False")
      case False
      with Suc.prems acq Inr p have "w' = w4"
        by (cases ok1) (auto simp: Let_def)
      with s4 show ?thesis by simp
    next
      case True
      let ?w5 = "client_mark_account_invalid env b w4"
      from True Suc.prems acq Inr p have "update_loop env png left ?w5 = (ok, w')"
        by (simp add: Let_def)
      then have "R ?w5 w'" by (rule Suc.IH)
      moreover have "R w4 ?w5" using cl by (rule closed_mark)
      ultimately show ?thesis using s4 by (blast intro: closed_trans [OF cl])
    qed
  qed
qed

lemma update_account_info_with_rel:
  assumes cl: "client_closed env U R"
    and dp: "\<And>w r w'. deeper w = (r, w') \<Longrightarrow> R w w'"
    and a: "update_account_info_with env deeper w = (r, w')"
  shows "R w w'"
proof -
  have g: "\<And>uri prms h w r w'. uri \<in> U \<Longrightarrow> get_with env deeper uri prms h w = (r, w') \<Longrightarrow> R w w'"
    by (rule get_with_rel [of env U R deeper, OF cl dp])
  have pg: "\<And>w ok w'. pong_with (get_with env deeper) w = (ok, w') \<Longrightarrow> R w w'"
    by (rule pong_with_rel [of env U R "get_with env deeper", OF cl g])
  obtain ok w1 where l: "update_loop env (pong_with (get_with env deeper)) max_retries w = (ok, w1)"
    by (cases "update_loop env (pong_with (get_with env deeper)) max_retries w")
  with a have "w' = w1"
    by (auto simp: update_account_info_with_def split: option.splits bool.splits)
  with update_loop_rel [of env U R "pong_with (get_with env deeper)", OF cl pg l] show ?thesis by simp
qed

lemma update_account_info_rel:
  assumes cl: "client_closed env U R"
  shows "update_account_info env d w = (r, w') \<Longrightarrow> R w w'"
proof (induction d arbitrary: w r w')
  case 0
  show ?case
  proof (rule update_account_info_with_rel [OF cl, where deeper = "\<lambda>w. (None, w)"])
    show "\<And>w r w'. (None, w) = (r, w') \<Longrightarrow> R w w'" using closed_refl [OF cl] by simp
    show "update_account_info_with env (\<lambda>w. (None, w)) w = (r, w')" using 0 by simp
  qed
next
  case (Suc d)
  show ?case
  proof (rule update_account_info_with_rel [OF cl, where deeper = "update_account_info env d"])
    show "\<And>w r w'. update_account_info env d w = (r, w') \<Longrightarrow> R w w'" by (rule Suc.IH)
    show "update_account_info_with env (update_account_info env d) w = (r, w')"
      using Suc.prems by simp
  qed
qed

lemma get_rel:
  assumes cl: "client_closed env U R" and u: "uri \<in> U"
    and a: "get env d uri prms h w = (r, w')"
  shows "R w w'"
proof -
  have "\<And>w r w'. update_account_info env d w = (r, w') \<Longrightarrow> R w w'"
    by (rule update_account_info_rel [OF cl])
  from get_with_rel [of env U R "update_account_info env d", OF cl this u] a
  show ?thesis by (simp add: get_def)
qed

subsection \<open>The rebinding path\<close>

lemma trace_load_rows [simp]: "trace (load_rows pf rows i w) = trace w"
  by (induction rows arbitrary: i w) (simp_all add: add_account_def)

fun pool_event :: "event \<Rightarrow> bool" where
  "pool_event Acquire = True"
| "pool_event Reload = True"
| "pool_event (Sleep d) = True"
| "pool_event e = False"

fun mark_event :: "event \<Rightarrow> bool" where
  "mark_event (Invalidate a) = True"
| "mark_event (IpInvalid p) = True"
| "mark_event e = False"

lemma pool_reload_accounts:
  "reload_accounts pf w = (r, w') \<Longrightarrow> new_events pool_event w w'"
  by (auto simp: reload_accounts_def load_accounts_from_xlsx_def new_events_def emit_def
      split: sum.splits)

lemma pool_get_active_account:
  "get_active_account pf w = (r, w') \<Longrightarrow> new_events pool_event w w'"
  by (auto simp: get_active_account_def split: option.splits prod.splits sum.splits
      dest: pool_reload_accounts)

lemma pool_get_proxy:
  "get_proxy env w = (r, w') \<Longrightarrow> new_events pool_event w w'"
proof -
  have body: "\<And>w r w'. get_proxy_body env w = (r, w') \<Longrightarrow> new_events pool_event w w'"
    by (auto simp: get_proxy_body_def Let_def reload_proxies_def new_events_def
        split: sum.splits prod.splits if_splits)
  have slp: "\<And>w. new_events pool_event w (sleep 1 w)"
    by (simp add: new_events_def sleep_def emit_def)
  show "get_proxy env w = (r, w') \<Longrightarrow> new_events pool_event w w'"
    unfolding get_proxy_def
    by (rule tenacity_retry_rel [of "new_events pool_event" "get_proxy_body env" 1])
       (auto intro: new_events_trans body slp)
qed

lemma pool_get_account_with_ip_info:
  assumes a: "get_account_with_ip_info env w = (r, w')"
  shows "new_events pool_event w w'"
proof -
  let ?pf = "pool_platform_name env"
  let ?w0 = "emit Acquire w"
  have e0: "new_events pool_event w ?w0" by (simp add: new_events_def emit_def)
  define first where "first = (case get_active_account ?pf ?w0 of
                 (Inr a, w1) \<Rightarrow> (Inr a, w1)
               | (Inl _, w1) \<Rightarrow>
                  (case reload_accounts ?pf w1 of
                     (Inl e, w2) \<Rightarrow> (Inl e, w2)
                   | (Inr _, w2) \<Rightarrow> get_active_account ?pf w2))"
  obtain r3 w3 where f: "first = (r3, w3)" by (cases first)
  have s3: "new_events pool_event w w3"
  proof -
    obtain ra wa where g1: "get_active_account ?pf ?w0 = (ra, wa)"
      by (cases "get_active_account ?pf ?w0")
    have sa: "new_events pool_event w wa"
      using e0 pool_get_active_account [OF g1] by (rule new_events_trans)
    show ?thesis
    proof (cases ra)
      case (Inr x)
      with f g1 sa show ?thesis by (simp add: first_def)
    next
      case (Inl e)
      obtain rb wb where g2: "reload_accounts ?pf wa = (rb, wb)" by (cases "reload_accounts ?pf wa")
      have sb: "new_events pool_event w wb"
        using sa pool_reload_accounts [OF g2] by (rule new_events_trans)
      show ?thesis
      proof (cases rb)
        case (Inl e2)
        with f g1 g2 \<open>ra = Inl e\<close> sb show ?thesis by (simp add: first_def)
      next
        case (Inr u)
        with f g1 g2 \<open>ra = Inl e\<close> have "get_active_account ?pf wb = (r3, w3)"
          by (simp add: first_def)
        from sb pool_get_active_account [OF this] show ?thesis by (rule new_events_trans)
      qed
    qed
  qed
  show ?thesis
  proof (cases r3)
    case (Inl e)
    with a f s3 show ?thesis
      by (simp add: get_account_with_ip_info_def Let_def first_def [symmetric])
  next
    case (Inr acc)
    show ?thesis
    proof (cases "proxy_ip_pool_present env")
      case False
      with a f Inr have "trace w' = trace w3"
        by (auto simp: get_account_with_ip_info_def Let_def first_def [symmetric])
      with s3 show ?thesis by (auto simp: new_events_def)
    next
      case True
      obtain r4 w4 where g: "get_proxy env w3 = (r4, w4)" by (cases "get_proxy env w3")
      have s4: "new_events pool_event w w4"
        using s3 pool_get_proxy [OF g] by (rule new_events_trans)
      from a f Inr True g have "trace w' = trace w4"
        by (cases r4) (auto simp: get_account_with_ip_info_def Let_def first_def [symmetric])
      with s4 show ?thesis by (auto simp: new_events_def)
    qed
  qed
qed

lemma mark_client_mark_account_invalid:
  "new_events mark_event w (client_mark_account_invalid env b w)"
  by (simp add: client_mark_account_invalid_def pool_mark_ip_invalid_def
      proxy_pool_mark_ip_invalid_def pool_mark_account_invalid_def pool_update_account_status_def
      new_events_def emit_def split: option.splits)

subsection \<open>Signing along the trace\<close>

text \<open>
  The URIs the client treats in a way of their own: \<^verbatim>\<open>_pre_url_params\<close> attaches no token
  for a URI that contains the search path; the home feed is posted with
  \<^verbatim>\<open>need_sign=False\<close>; the probe of a rebinding reads the history.
\<close>

definition search_path :: string where
  "search_path = ''/v1/web/general/search/single/''"

definition homefeed_uri :: string where
  "homefeed_uri = ''/aweme/v1/web/module/feed/''"

definition probe_uri :: string where
  "probe_uri = ''/aweme/v1/web/history/read/''"

text \<open>
  Reading a trace from left to right, \<open>signed\<close> holds for each URI what the signer
  answered to the latest call for that URI (\<open>None\<close>: no call yet). An HTTP request is
  rightly signed when: for the home feed, it carries no token; for a URI on the search
  path, the signer has answered and the request carries no token; for any other URI, the
  signer's latest answer for the URI is a token that is not empty and the request carries
  exactly that token. The signer is not called for the home feed.
\<close>

type_synonym sign_state = "string \<Rightarrow> (exn + string option) option"

definition token_ok :: "string \<Rightarrow> (exn + string option) option \<Rightarrow> string option \<Rightarrow> bool" where
  "token_ok u answer t =
     (if u = homefeed_uri then t = None
      else (case answer of
              Some (Inr a) \<Rightarrow> if py_in search_path u then t = None else truthy a \<and> t = a
            | _ \<Rightarrow> False))"

fun well_signed :: "env \<Rightarrow> sign_state \<Rightarrow> event list \<Rightarrow> bool" where
  "well_signed env signed [] = True"
| "well_signed env signed (SignCall req # es) =
     (sr_uri req \<noteq> homefeed_uri
      \<and> well_signed env (signed(sr_uri req := Some (js_get_abogus env req))) es)"
| "well_signed env signed (Dispatch u c p t # es) =
     (token_ok u (signed u) t \<and> well_signed env signed es)"
| "well_signed env signed (e # es) = well_signed env signed es"

fun signed_after :: "env \<Rightarrow> sign_state \<Rightarrow> event list \<Rightarrow> sign_state" where
  "signed_after env signed [] = signed"
| "signed_after env signed (SignCall req # es) =
     signed_after env (signed(sr_uri req := Some (js_get_abogus env req))) es"
| "signed_after env signed (e # es) = signed_after env signed es"

text \<open>The events a call has added to the trace.\<close>

definition new_trace :: "world \<Rightarrow> world \<Rightarrow> event list" where
  "new_trace w w' = drop (length (trace w)) (trace w')"

definition signing_ok :: "env \<Rightarrow> world \<Rightarrow> world \<Rightarrow> bool" where
  "signing_ok env w w' = (\<exists>es. trace w' = trace w @ es \<and> (\<forall>signed. well_signed env signed es))"

lemma well_signed_append:
  "well_signed env signed (es1 @ es2)
     = (well_signed env signed es1 \<and> well_signed env (signed_after env signed es1) es2)"
proof (induction es1 arbitrary: signed)
  case Nil
  then show ?case by simp
next
  case (Cons e es1)
  show ?case
  proof (cases e)
    case (SignCall req)
    show ?thesis
      unfolding SignCall
      by (simp only: append_Cons well_signed.simps signed_after.simps conj_assoc
          Cons.IH [of "signed(sr_uri req := Some (js_get_abogus env req))"])
  qed (simp_all add: Cons.IH [of signed])
qed

lemma signing_ok_refl [simp]: "signing_ok env w w"
  by (simp add: signing_ok_def)

lemma signing_ok_trans: "signing_ok env a b \<Longrightarrow> signing_ok env b c \<Longrightarrow> signing_ok env a c"
  by (auto simp: signing_ok_def well_signed_append)

lemma signing_ok_new_trace:
  "signing_ok env w w' \<Longrightarrow> trace w' = trace w @ new_trace w w' \<and> well_signed env signed (new_trace w w')"
  by (auto simp: signing_ok_def new_trace_def)

text \<open>Events that are neither a call of the signer nor an HTTP request.\<close>

fun quiet :: "event \<Rightarrow> bool" where
  "quiet (SignCall req) = False"
| "quiet (Dispatch u c p t) = False"
| "quiet e = True"

lemma well_signed_quiet: "list_all quiet es \<Longrightarrow> well_signed env signed es"
proof (induction es)
  case Nil
  then show ?case by simp
next
  case (Cons e es)
  then show ?case by (cases e) simp_all
qed

lemma signed_after_quiet: "list_all quiet es \<Longrightarrow> signed_after env signed es = signed"
proof (induction es)
  case Nil
  then show ?case by simp
next
  case (Cons e es)
  then show ?case by (cases e) simp_all
qed

lemma signing_ok_quiet: "new_events quiet w w' \<Longrightarrow> signing_ok env w w'"
  by (auto simp: new_events_def signing_ok_def well_signed_quiet)

lemma well_signed_requests:
  "list_all (on_wire (\<lambda>req. False) (\<lambda>u c p t. u = uri \<and> t = tok)) es \<Longrightarrow>
   token_ok uri (signed uri) tok \<Longrightarrow> well_signed env signed es"
proof (induction es)
  case Nil
  then show ?case by simp
next
  case (Cons e es)
  then show ?case by (cases e) simp_all
qed

lemma common_params_no_token: "common_params ''a_bogus'' = None"
  by (simp add: common_params_def)

lemma verify_params_no_token: "verify_params env ''a_bogus'' = None"
  by (simp add: verify_params_def split: option.splits)

lemma merged_token: "(p ++ common_params ++ verify_params env) ''a_bogus'' = p ''a_bogus''"
  by (simp add: map_add_def common_params_no_token verify_params_no_token)

text \<open>
  \<^verbatim>\<open>_pre_url_params\<close>: the signer is called once, with the request built from the merged
  parameters; when the method returns, the parameters are the merged ones on the search
  path, and otherwise the merged ones with the token the signer returned, which is not
  empty.
\<close>

lemma pre_url_params_trace:
  assumes a: "pre_url_params env uri p w = (r, w')"
  shows "only_sleeps (emit (SignCall (sign_request_of env uri p w)) w) w'
         \<and> (\<forall>p'. r = Inr p' \<longrightarrow>
              (if py_in search_path uri
               then p' = p ++ common_params ++ verify_params env
                    \<and> (\<exists>a. js_get_abogus env (sign_request_of env uri p w) = Inr a)
               else (\<exists>tok. js_get_abogus env (sign_request_of env uri p w) = Inr (Some tok)
                      \<and> tok \<noteq> [] \<and> p' = (p ++ common_params ++ verify_params env)(''a_bogus'' \<mapsto> tok))))"
proof -
  let ?req = "sign_request_of env uri p w"
  obtain r1 w1 where sg: "sign_logic env ?req w = (r1, w1)" by (cases "sign_logic env ?req w")
  note t = sign_logic_trace [OF sg]
  from a sg have w': "w' = w1"
    by (auto simp: pre_url_params_def sign_request_of_def Let_def split: sum.splits if_splits)
  show ?thesis
  proof (cases r1)
    case (Inl e)
    with a sg have "r = Inl e"
      by (simp add: pre_url_params_def sign_request_of_def Let_def)
    with t w' show ?thesis by simp
  next
    case (Inr resp)
    with t have js: "js_get_abogus env ?req = Inr (resp_a_bogus resp)" and d: "resp_data resp = None"
      by simp_all
    show ?thesis
    proof (cases "py_in search_path uri")
      case True
      with a sg Inr have "r = Inr (p ++ common_params ++ verify_params env)"
        by (simp add: pre_url_params_def sign_request_of_def Let_def search_path_def)
      with t w' True js show ?thesis by simp
    next
      case False
      have "\<exists>tok. resp_a_bogus resp = Some tok \<and> tok \<noteq> []
            \<and> p' = (p ++ common_params ++ verify_params env)(''a_bogus'' \<mapsto> tok)"
        if "r = Inr p'" for p'
        using that a sg Inr False d
        by (auto simp: pre_url_params_def sign_request_of_def Let_def search_path_def
            get_a_bogus_def truthy_def split: sum.splits if_splits option.splits)
      with t w' False js show ?thesis by auto
    qed
  qed
qed

text \<open>\<open>no_token_on_search uri p\<close>: on the search path the parameters hold no token.\<close>

definition no_token_on_search :: "string \<Rightarrow> params \<Rightarrow> bool" where
  "no_token_on_search uri p = (py_in search_path uri \<longrightarrow> p ''a_bogus'' = None)"

lemma signing_sign_then_request:
  assumes p: "pre_url_params env uri p w = (Inr p', w1)"
    and rq: "request env uri p' h w1 = (r, w')"
    and k: "no_token_on_search uri p" and u: "uri \<noteq> homefeed_uri"
  shows "signing_ok env w w' \<and> no_token_on_search uri p'"
proof -
  let ?req = "sign_request_of env uri p w"
  from pre_url_params_trace [OF p]
  have sl: "only_sleeps (emit (SignCall ?req) w) w1"
    and ans: "if py_in search_path uri
               then p' = p ++ common_params ++ verify_params env
                    \<and> (\<exists>a. js_get_abogus env ?req = Inr a)
               else (\<exists>tok. js_get_abogus env ?req = Inr (Some tok)
                      \<and> tok \<noteq> [] \<and> p' = (p ++ common_params ++ verify_params env)(''a_bogus'' \<mapsto> tok))"
    by simp_all
  from sl obtain es1 where e1: "trace w1 = trace w @ SignCall ?req # es1" and q1: "list_all is_sleep es1"
    by (auto simp: only_sleeps_def new_events_def emit_def)
  from wire_request [OF rq, of "\<lambda>req. False"]
  obtain es2 where e2: "trace w' = trace w1 @ es2"
    and q2: "list_all (on_wire (\<lambda>req. False) (\<lambda>u c p t. u = uri \<and> t = p' ''a_bogus'')) es2"
    by (auto simp: new_events_def)
  have quiet1: "list_all quiet es1"
    using q1 by (induction es1) (auto elim: is_sleep.elims)
  have tok: "token_ok uri (Some (js_get_abogus env ?req)) (p' ''a_bogus'')"
  proof (cases "py_in search_path uri")
    case True
    with ans k show ?thesis
      by (auto simp: token_ok_def no_token_on_search_def merged_token)
  next
    case False
    with ans u show ?thesis by (auto simp: token_ok_def truthy_def)
  qed
  have "well_signed env signed (SignCall ?req # es1 @ es2)" for signed
  proof -
    let ?s = "signed(uri := Some (js_get_abogus env ?req))"
    have "well_signed env ?s es1" using quiet1 by (rule well_signed_quiet)
    moreover have "signed_after env ?s es1 = ?s" using quiet1 by (rule signed_after_quiet)
    moreover have "well_signed env ?s es2" using q2 tok by (intro well_signed_requests) auto
    ultimately show ?thesis using u
      by (simp add: well_signed_append sign_request_of_def)
  qed
  moreover have "trace w' = trace w @ SignCall ?req # es1 @ es2" using e1 e2 by simp
  ultimately have "signing_ok env w w'" unfolding signing_ok_def by blast
  moreover have "no_token_on_search uri p'"
    using ans k by (auto simp: no_token_on_search_def merged_token split: if_splits)
  ultimately show ?thesis by simp
qed

lemma signing_sign_only:
  assumes p: "pre_url_params env uri p w = (r, w1)" and u: "uri \<noteq> homefeed_uri"
  shows "signing_ok env w w1"
proof -
  let ?req = "sign_request_of env uri p w"
  from pre_url_params_trace [OF p] have "only_sleeps (emit (SignCall ?req) w) w1" by simp
  then obtain es1 where e1: "trace w1 = trace w @ SignCall ?req # es1" and q1: "list_all is_sleep es1"
    by (auto simp: only_sleeps_def new_events_def emit_def)
  have "list_all quiet es1"
    using q1 by (induction es1) (auto elim: is_sleep.elims)
  then have "well_signed env signed (SignCall ?req # es1)" for signed
    using u by (simp add: well_signed_quiet sign_request_of_def)
  with e1 show ?thesis unfolding signing_ok_def by blast
qed

lemma signing_get_try:
  assumes k: "no_token_on_search uri p" and u: "uri \<noteq> homefeed_uri"
    and a: "get_try env uri p h w = ((r, p1), w')"
  shows "signing_ok env w w' \<and> no_token_on_search uri p1"
proof -
  obtain r1 w1 where p: "pre_url_params env uri p w = (r1, w1)"
    by (cases "pre_url_params env uri p w")
  show ?thesis
  proof (cases r1)
    case (Inl e)
    with a p have "w' = w1" "p1 = p" by (auto simp: get_try_def)
    with signing_sign_only [OF p u] k show ?thesis by simp
  next
    case (Inr p')
    obtain r2 w2 where rq: "request env uri p' h w1 = (r2, w2)"
      by (cases "request env uri p' h w1")
    with a p Inr have "w' = w2" "p1 = p'" by (auto simp: get_try_def)
    with signing_sign_then_request [OF _ rq k u] p Inr show ?thesis by simp
  qed
qed

lemma signing_sign_and_request:
  assumes k: "no_token_on_search uri p" and u: "uri \<noteq> homefeed_uri"
    and a: "sign_and_request env uri p h w = (r, w')"
  shows "signing_ok env w w'"
proof -
  obtain r1 w1 where p: "pre_url_params env uri p w = (r1, w1)"
    by (cases "pre_url_params env uri p w")
  show ?thesis
  proof (cases r1)
    case (Inl e)
    with a p have "w' = w1" by (auto simp: sign_and_request_def)
    with signing_sign_only [OF p u] show ?thesis by simp
  next
    case (Inr p')
    with a p have rq: "request env uri p' h w1 = (r, w')" by (simp add: sign_and_request_def)
    with signing_sign_then_request [OF _ rq k u] p Inr show ?thesis by simp
  qed
qed

lemma quiet_pool_event: "pool_event e \<Longrightarrow> quiet e"
  by (cases e) auto

lemma quiet_mark_event: "mark_event e \<Longrightarrow> quiet e"
  by (cases e) auto

lemma signing_ok_sleep: "signing_ok env w (sleep d w)"
  by (rule signing_ok_quiet) (simp add: new_events_def sleep_def emit_def)

lemma signing_ok_mark: "signing_ok env w (client_mark_account_invalid env b w)"
  by (rule signing_ok_quiet)
     (rule new_events_mono [OF mark_client_mark_account_invalid quiet_mark_event])

lemma probe_not_search: "\<not> py_in search_path probe_uri"
  by (simp add: probe_uri_def search_path_def)

lemma probe_not_homefeed: "probe_uri \<noteq> homefeed_uri"
  by (simp add: probe_uri_def homefeed_uri_def)

lemma closed_signing: "client_closed env {probe_uri} (signing_ok env)"
  unfolding client_closed_def
proof (intro conjI allI impI)
  show "''/aweme/v1/web/history/read/'' \<in> {probe_uri}" by (simp add: probe_uri_def)
next
  fix a b c assume "signing_ok env a b" "signing_ok env b c"
  then show "signing_ok env a c" by (rule signing_ok_trans)
next
  fix uri prms h w rp w'
  assume u: "uri \<in> {probe_uri}" and t: "get_try env uri prms h w = (rp, w')"
  obtain r p1 where "rp = (r, p1)" by (cases rp)
  with t u have "get_try env probe_uri prms h w = ((r, p1), w')" by simp
  from signing_get_try [OF _ probe_not_homefeed this] show "signing_ok env w w'"
    by (simp add: no_token_on_search_def probe_not_search)
next
  fix uri prms h w r w'
  assume u: "uri \<in> {probe_uri}" and t: "sign_and_request env uri prms h w = (r, w')"
  then have "sign_and_request env probe_uri prms h w = (r, w')" by simp
  from signing_sign_and_request [OF _ probe_not_homefeed this] show "signing_ok env w w'"
    by (simp add: no_token_on_search_def probe_not_search)
next
  fix d w show "signing_ok env w (sleep d w)" by (rule signing_ok_sleep)
next
  fix b w show "signing_ok env w (client_mark_account_invalid env b w)" by (rule signing_ok_mark)
next
  fix w r w' assume "get_account_with_ip_info env w = (r, w')"
  then have "new_events pool_event w w'" by (rule pool_get_account_with_ip_info)
  then have "new_events quiet w w'" using quiet_pool_event by (rule new_events_mono)
  then show "signing_ok env w w'" by (rule signing_ok_quiet)
qed (simp_all add: signing_ok_def reset_http_client_def)

lemma signing_rebind: "update_account_info env d w = (r, w') \<Longrightarrow> signing_ok env w w'"
  using closed_signing by (rule update_account_info_rel)

text \<open>
  \<^verbatim>\<open>get\<close> on any URI but the home feed's, with parameters that hold no token when the URI
  is on the search path: every request of the call, and of the rebindings inside it, is
  rightly signed, at every depth and whether the call returns or not.
\<close>

lemma signing_get:
  assumes u: "uri \<noteq> homefeed_uri" and k: "no_token_on_search uri prms"
    and a: "get env d uri prms h w = (r, w')"
  shows "signing_ok env w w'"
proof (rule get_with_inv [of "signing_ok env" "no_token_on_search uri" env uri h
        "update_account_info env d" prms w r w'])
  show "\<And>a b c. signing_ok env a b \<Longrightarrow> signing_ok env b c \<Longrightarrow> signing_ok env a c"
    by (rule signing_ok_trans)
  show "\<And>w. signing_ok env w w" by simp
  show "\<And>p w r p1 w'. no_token_on_search uri p \<Longrightarrow> get_try env uri p h w = ((r, p1), w')
      \<Longrightarrow> signing_ok env w w' \<and> no_token_on_search uri p1"
    using u by (rule signing_get_try [rotated])
  show "\<And>p w r w'. no_token_on_search uri p \<Longrightarrow> sign_and_request env uri p h w = (r, w')
      \<Longrightarrow> signing_ok env w w'"
    using u by (rule signing_sign_and_request [rotated])
  show "\<And>w. signing_ok env w (sleep 10 w)" by (rule signing_ok_sleep)
  show "\<And>b w. signing_ok env w (client_mark_account_invalid env b w)" by (rule signing_ok_mark)
  show "\<And>w r w'. update_account_info env d w = (r, w') \<Longrightarrow> signing_ok env w w'"
    by (rule signing_rebind)
  show "no_token_on_search uri prms" by (rule k)
  show "get_with env (update_account_info env d) uri prms h w = (r, w')"
    using a by (simp add: get_def)
qed

text \<open>\<^verbatim>\<open>post\<close> of the home feed with \<^verbatim>\<open>need_sign=False\<close> and parameters without token.\<close>

lemma signing_post_request:
  assumes rq: "request env homefeed_uri prms h w = (r, w')" and n: "prms ''a_bogus'' = None"
  shows "signing_ok env w w'"
proof -
  from wire_request [OF rq, of "\<lambda>req. False"]
  obtain es where e: "trace w' = trace w @ es"
    and q: "list_all (on_wire (\<lambda>req. False) (\<lambda>u c p t. u = homefeed_uri \<and> t = prms ''a_bogus'')) es"
    by (auto simp: new_events_def)
  have "well_signed env signed es" for signed
    using q by (rule well_signed_requests) (simp add: token_ok_def n)
  with e show ?thesis unfolding signing_ok_def by blast
qed

lemma signing_post:
  assumes n: "prms ''a_bogus'' = None"
    and a: "post env d homefeed_uri prms False w = (r, w')"
  shows "signing_ok env w w'"
proof -
  let ?rebind = "update_account_info env d"
  have again: "signing_ok env w w'" if "post_again env homefeed_uri prms False w = (r, w')" for w r w'
    using that n by (auto simp: post_again_def sign_if_needed_def Let_def dest: signing_post_request)
  obtain r1 p1 w1 where t: "post_try env homefeed_uri prms False w = ((r1, p1), w1)"
    by (cases "post_try env homefeed_uri prms False w") auto
  then have rq: "request env homefeed_uri prms (Some (client_cookies w)) w = (r1, w1)" and p1: "p1 = prms"
    by (auto simp: post_try_def sign_if_needed_def split: prod.splits)
  have s1: "signing_ok env w w1" using rq n by (rule signing_post_request)
  from a have gw: "post_with env ?rebind homefeed_uri prms False w = (r, w')" by (simp add: post_def)
  show ?thesis
  proof (cases r1)
    case (Inr j)
    with gw t have "w' = w1" by (simp add: post_with_def)
    with s1 show ?thesis by simp
  next
    case (Inl e)
    show ?thesis
    proof (cases "\<exists>x. e = RetryError x")
      case False
      with gw t Inl have "w' = w1" by (cases e) (auto simp: post_with_def)
      with s1 show ?thesis by simp
    next
      case True
      then obtain x where ex: "e = RetryError x" by blast
      show ?thesis
      proof (cases "\<not> account_related (exn_str x) \<and> rate_limited (exn_str x)")
        case True
        obtain r2 w2 where pa: "post_again env homefeed_uri prms False (sleep 10 w1) = (r2, w2)"
          by (cases "post_again env homefeed_uri prms False (sleep 10 w1)")
        with True gw t Inl ex p1 have "w' = w2" by (simp add: post_with_def)
        with again [OF pa] signing_ok_sleep [of env w1 10] s1 show ?thesis
          by (blast intro: signing_ok_trans)
      next
        case False
        with gw t Inl ex p1
        have rot: "post_rotate_and_retry env ?rebind homefeed_uri prms False w1 = (r, w')"
          by (auto simp: post_with_def Let_def split: if_splits)
        show ?thesis
        proof (cases "account_info w1")
          case None
          with rot have "w' = w1" by (simp add: post_rotate_and_retry_def)
          with s1 show ?thesis by simp
        next
          case (Some b)
          let ?w0 = "client_mark_account_invalid env b w1"
          obtain r3 w3 where rr: "?rebind ?w0 = (r3, w3)" by (cases "?rebind ?w0")
          have s3: "signing_ok env w w3"
            using s1 signing_ok_mark [of env w1 b] signing_rebind [OF rr]
            by (blast intro: signing_ok_trans)
          show ?thesis
          proof (cases "\<exists>u. r3 = Some (Inr u)")
            case False
            with rot Some rr have "w' = w3"
              by (cases r3) (auto simp: post_rotate_and_retry_def split: sum.splits)
            with s3 show ?thesis by simp
          next
            case True
            then obtain u where r3: "r3 = Some (Inr u)" by blast
            obtain r4 w4 where pa: "post_again env homefeed_uri prms False w3 = (r4, w4)"
              by (cases "post_again env homefeed_uri prms False w3")
            with rot Some rr r3 have "w' = w4" by (simp add: post_rotate_and_retry_def)
            with s3 again [OF pa] show ?thesis by (auto intro: signing_ok_trans)
          qed
        qed
      qed
    qed
  qed
qed

section \<open>Signing of the typed operations (C2)\<close>

fun is_search :: "operation \<Rightarrow> bool" where
  "is_search (SearchInfoByKeyword keyword offset search_channel sort_type publish_time search_id) = True"
| "is_search operation = False"

lemma op_uri_homefeed: "(op_uri operation = homefeed_uri) = is_homefeed operation"
  by (cases operation) (simp_all add: homefeed_uri_def)

lemma op_uri_search: "py_in search_path (op_uri operation) = is_search operation"
  by (cases operation) (simp_all add: search_path_def)

lemma search_params_no_token:
  "search_params keyword offset search_channel sort_type publish_time search_id ''a_bogus'' = None"
  by (simp add: search_params_def Let_def)

lemma homefeed_params_no_token: "homefeed_params tag_id refresh_index count ''a_bogus'' = None"
  by (simp add: homefeed_params_def)

lemma op_params_no_token: "op_params env operation = Inr prms \<Longrightarrow> prms ''a_bogus'' = None"
  by (cases operation)
     (auto simp: search_params_no_token homefeed_params_no_token map_add_def verify_params_no_token
       split: sum.splits)

lemma fetch_signing:
  assumes f: "fetch env d operation w = (r, w')"
  shows "signing_ok env w w'"
proof (cases "op_params env operation")
  case (Inl e)
  with f show ?thesis by (simp add: fetch_def)
next
  case (Inr prms)
  note n = op_params_no_token [OF Inr]
  show ?thesis
  proof (cases "is_homefeed operation")
    case True
    with f Inr have "post env d homefeed_uri prms False w = (r, w')"
      by (simp add: fetch_def op_uri_homefeed [symmetric])
    with n show ?thesis by (rule signing_post)
  next
    case False
    with f Inr obtain h where "get env d (op_uri operation) prms h w = (r, w')"
      by (simp add: fetch_def)
    moreover have "op_uri operation \<noteq> homefeed_uri" using False by (simp add: op_uri_homefeed)
    moreover have "no_token_on_search (op_uri operation) prms"
      using n by (simp add: no_token_on_search_def)
    ultimately show ?thesis by (rule signing_get [rotated 2])
  qed
qed

text \<open>The first event of \<^verbatim>\<open>get\<close> is the call of the signer.\<close>

lemma signing_ok_extends: "signing_ok env w w' \<Longrightarrow> \<exists>es. trace w' = trace w @ es"
  by (auto simp: signing_ok_def)

lemma wire_only_extends: "wire_only uri h w w' \<Longrightarrow> \<exists>es. trace w' = trace w @ es"
  by (auto simp: wire_only_def new_events_def)

lemma get_try_first_event:
  assumes t: "get_try env uri prms h w = (rp, w1)"
  shows "\<exists>es. trace w1 = trace w @ SignCall (sign_request_of env uri prms w) # es"
proof -
  obtain r0 w0 where p: "pre_url_params env uri prms w = (r0, w0)"
    by (cases "pre_url_params env uri prms w")
  from pre_url_params_trace [OF p]
  obtain es0 where e0: "trace w0 = trace w @ SignCall (sign_request_of env uri prms w) # es0"
    by (auto simp: only_sleeps_def new_events_def emit_def)
  show ?thesis
  proof (cases r0)
    case (Inl e)
    with t p e0 show ?thesis by (auto simp: get_try_def)
  next
    case (Inr p')
    obtain r2 w2 where rq: "request env uri p' h w0 = (r2, w2)" by (cases "request env uri p' h w0")
    with t p Inr have "w1 = w2" by (auto simp: get_try_def)
    with wire_only_extends [OF wire_only_request [OF rq]] e0 show ?thesis by auto
  qed
qed

lemma get_first_event:
  assumes u: "uri \<noteq> homefeed_uri" and k: "no_token_on_search uri prms"
    and a: "get env d uri prms h w = (r, w')"
  shows "\<exists>es. trace w' = trace w @ SignCall (sign_request_of env uri prms w) # es"
proof -
  obtain r1 p1 w1 where t: "get_try env uri prms h w = ((r1, p1), w1)"
    by (cases "get_try env uri prms h w") auto
  from signing_get_try [OF k u t] have k1: "no_token_on_search uri p1" by simp
  have "signing_ok env w1 w'"
  proof (rule get_with_rest [of "signing_ok env" env uri p1 h "update_account_info env d"
        prms w r1 w1 r w'])
    show "\<And>w r w'. sign_and_request env uri p1 h w = (r, w') \<Longrightarrow> signing_ok env w w'"
      using k1 u by (rule signing_sign_and_request)
    show "get_with env (update_account_info env d) uri prms h w = (r, w')"
      using a by (simp add: get_def)
  qed (auto intro: signing_ok_trans signing_ok_sleep signing_ok_mark signing_rebind t)
  with get_try_first_event [OF t] signing_ok_extends show ?thesis by fastforce
qed

lemma fetch_first_event:
  assumes f: "fetch env d operation w = (r, w')"
    and p: "op_params env operation = Inr prms" and nh: "\<not> is_homefeed operation"
  shows "\<exists>es. new_trace w w' = SignCall (sign_request_of env (op_uri operation) prms w) # es"
proof -
  from f p nh obtain h where "get env d (op_uri operation) prms h w = (r, w')"
    by (simp add: fetch_def)
  moreover have "op_uri operation \<noteq> homefeed_uri" using nh by (simp add: op_uri_homefeed)
  moreover have "no_token_on_search (op_uri operation) prms"
    using op_params_no_token [OF p] by (simp add: no_token_on_search_def)
  ultimately have "\<exists>es. trace w' = trace w @ SignCall (sign_request_of env (op_uri operation) prms w) # es"
    by (rule get_first_event [rotated 2])
  then show ?thesis by (auto simp: new_trace_def)
qed

lemma fetch_missing_token:
  assumes p: "op_params env operation = Inr prms"
    and o: "\<not> is_search operation" "\<not> is_homefeed operation"
    and s: "js_get_abogus env (sign_request_of env (op_uri operation) prms w) = Inr a"
    and t: "\<not> truthy a"
  shows "fetch env d operation w
         = (Some (Inl (ValueError ''a_bogus not found in response'')),
            emit (SignCall (sign_request_of env (op_uri operation) prms w)) w)"
proof -
  have np: "\<not> py_in ''/v1/web/general/search/single/'' (op_uri operation)"
    using o op_uri_search [of operation] by (simp add: search_path_def)
  have tn: "\<not> truthy None"
    by (simp add: truthy_def)
  have "pre_url_params env (op_uri operation) prms w
        = (Inl (ValueError ''a_bogus not found in response''),
           emit (SignCall (sign_request_of env (op_uri operation) prms w)) w)"
    using s t tn np
    by (simp add: pre_url_params_def Let_def sign_logic_def javascript_sign_def tenacity_retry_def
        javascript_sign_body_def get_a_bogus_def sign_request_of_def eval_nat_numeral)
  then show ?thesis
    using o p by (simp add: fetch_def get_def get_with_def get_try_def)
qed

text \<open>
  Examples: an answer of the platform with application code 0; an environment without
  proxies, given its signer and the platform's answers; a client bound to the one account
  of the pool.
\<close>

definition ok_response :: http_response where
  "ok_response = \<lparr>rsp_status = 200, rsp_text = ''{}'',
      rsp_json = Inr \<lparr>js_status_code = Some 0, js_status_msg = None, js_body = 0\<rparr>\<rparr>"

definition example_env ::
  "(DouyinSignRequest \<Rightarrow> exn + string option) \<Rightarrow> (nat \<Rightarrow> exn + http_response) \<Rightarrow> env" where
  "example_env signer answers =
     \<lparr>ENABLE_IP_PROXY = False, proxy_ip_pool_present = False, enable_validate_ip = False,
      pool_platform_name = ''dy'', client_user_agent = ''UA'',
      common_verify_params = Some \<lparr>ms_token = ''ms'', webid = ''wid'', verify_fp = ''fp''\<rparr>,
      respond = answers, provider_get_proxies = (\<lambda>_. Inr []), random_choice = (\<lambda>_. 0),
      is_valid_proxy = (\<lambda>_. True), js_get_abogus = signer, urlencode = (\<lambda>_. ''q'')\<rparr>"

definition bound_world :: world where
  "bound_world = one_account_world\<lparr>n_pairs := 1, account_info := Some 0\<rparr>"

lemmas example_defs = example_env_def bound_world_def one_account_world_def ok_response_def

lemmas request_defs = fetch_def get_def get_with_def get_try_def pre_url_params_def sign_logic_def
  javascript_sign_def javascript_sign_body_def tenacity_retry_def request_def request_body_def
  check_ip_expired_def client_cookies_def client_ip_info_def client_proxies_def emit_def sleep_def
  response_result_def response_body_result_def get_a_bogus_def truthy_def

text \<open>
  C2, as stated: every operation but the home feed has the token attached, and a missing
  token makes the call fail. The keyword search, with a signer that returns the token
  \<open>tok\<close>: the signer is called and the request goes out with no token. The same with a
  signer that returns no token: the request goes out all the same and the call succeeds.
\<close>

theorem C2_search_dispatched_unsigned_counterexample:
  "trace (snd (fetch (example_env (\<lambda>_. Inr (Some ''tok'')) (\<lambda>_. Inr ok_response)) 0
        (SearchInfoByKeyword ''cat'' 0 CHANNEL_GENERAL SORT_GENERAL UNLIMITED []) bound_world))
     = [SignCall \<lparr>sr_uri = ''/aweme/v1/web/general/search/single/'', sr_query_params = ''q'',
                  sr_user_agent = ''UA'', sr_cookies = ''sid=1''\<rparr>,
        Dispatch ''/aweme/v1/web/general/search/single/'' ''sid=1'' None None]
   \<and> trace (snd (fetch (example_env (\<lambda>_. Inr None) (\<lambda>_. Inr ok_response)) 0
        (SearchInfoByKeyword ''cat'' 0 CHANNEL_GENERAL SORT_GENERAL UNLIMITED []) bound_world))
     = [SignCall \<lparr>sr_uri = ''/aweme/v1/web/general/search/single/'', sr_query_params = ''q'',
                  sr_user_agent = ''UA'', sr_cookies = ''sid=1''\<rparr>,
        Dispatch ''/aweme/v1/web/general/search/single/'' ''sid=1'' None None]
   \<and> fst (fetch (example_env (\<lambda>_. Inr None) (\<lambda>_. Inr ok_response)) 0
        (SearchInfoByKeyword ''cat'' 0 CHANNEL_GENERAL SORT_GENERAL UNLIMITED []) bound_world)
     = Some (Inr \<lparr>js_status_code = Some 0, js_status_msg = None, js_body = 0\<rparr>)"
  by (simp add: request_defs example_defs search_params_no_token merged_token eval_nat_numeral)

text \<open>
  C2, amended. Whatever a typed operation has added to the trace when it returns, or
  when it is followed no deeper, is rightly signed, read from a state in which nothing is
  signed yet: a request of the home feed carries no token and the signer is never called
  for the home feed; a request of the keyword search carries no token and comes after a
  call of the signer for its URI that returned; any other request (of the operation or of
  a probe) carries exactly the token that the latest call of the signer for its URI
  returned, and that token is not empty. An operation other than the home feed whose
  parameters could be built starts with the call of the signer, for the operation's URI,
  the encoded merged parameters, the client's user agent and the bound account's
  cookies. When the operation is neither the keyword search nor the home feed and the
  signer answers that call with a missing or an empty token, the operation fails with a
  \<open>ValueError\<close> and nothing has been sent.
\<close>

theorem C2_signing_by_operation:
  "(fetch env d operation w = (r, w') \<longrightarrow>
      trace w' = trace w @ new_trace w w'
      \<and> well_signed env (\<lambda>uri. None) (new_trace w w')
      \<and> (op_params env operation = Inr prms \<and> \<not> is_homefeed operation \<longrightarrow>
            (\<exists>es. new_trace w w' = SignCall (sign_request_of env (op_uri operation) prms w) # es)))
   \<and> (op_params env operation = Inr prms \<and> \<not> is_search operation \<and> \<not> is_homefeed operation
      \<and> js_get_abogus env (sign_request_of env (op_uri operation) prms w) = Inr a \<and> \<not> truthy a
      \<longrightarrow> fetch env d operation w
          = (Some (Inl (ValueError ''a_bogus not found in response'')),
             emit (SignCall (sign_request_of env (op_uri operation) prms w)) w))"
  using signing_ok_new_trace [OF fetch_signing] fetch_first_event fetch_missing_token
  by blast

text \<open>
  Instances: the item detail with a signer that returns \<open>tok\<close>; the home feed; the item
  detail with a signer that returns an empty token.
\<close>

theorem C2_signing_by_operation_witness:
  "new_trace bound_world
      (snd (fetch (example_env (\<lambda>_. Inr (Some ''tok'')) (\<lambda>_. Inr ok_response)) 0
              (GetVideoById ''v1'') bound_world))
     = [SignCall \<lparr>sr_uri = ''/aweme/v1/web/aweme/detail/'', sr_query_params = ''q'',
                  sr_user_agent = ''UA'', sr_cookies = ''sid=1''\<rparr>,
        Dispatch ''/aweme/v1/web/aweme/detail/'' ''sid=1'' None (Some ''tok'')]
   \<and> well_signed (example_env (\<lambda>_. Inr (Some ''tok'')) (\<lambda>_. Inr ok_response)) (\<lambda>uri. None)
       (new_trace bound_world
          (snd (fetch (example_env (\<lambda>_. Inr (Some ''tok'')) (\<lambda>_. Inr ok_response)) 0
                  (GetVideoById ''v1'') bound_world)))
   \<and> new_trace bound_world
      (snd (fetch (example_env (\<lambda>_. Inr (Some ''tok'')) (\<lambda>_. Inr ok_response)) 0
              (GetHomefeedAwemeList 0 0 20) bound_world))
     = [Dispatch ''/aweme/v1/web/module/feed/'' ''sid=1'' None None]
   \<and> well_signed (example_env (\<lambda>_. Inr (Some ''tok'')) (\<lambda>_. Inr ok_response)) (\<lambda>uri. None)
       (new_trace bound_world
          (snd (fetch (example_env (\<lambda>_. Inr (Some ''tok'')) (\<lambda>_. Inr ok_response)) 0
                  (GetHomefeedAwemeList 0 0 20) bound_world)))
   \<and> fetch (example_env (\<lambda>_. Inr (Some [])) (\<lambda>_. Inr ok_response)) 0 (GetVideoById ''v1'') bound_world
      = (Some (Inl (ValueError ''a_bogus not found in response'')),
         emit (SignCall \<lparr>sr_uri = ''/aweme/v1/web/aweme/detail/'', sr_query_params = ''q'',
                  sr_user_agent = ''UA'', sr_cookies = ''sid=1''\<rparr>) bound_world)"
proof -
  let ?env = "example_env (\<lambda>_. Inr (Some ''tok'')) (\<lambda>_. Inr ok_response)"
  let ?env' = "example_env (\<lambda>_. Inr (Some [])) (\<lambda>_. Inr ok_response)"
  let ?detail = "fetch ?env 0 (GetVideoById ''v1'') bound_world"
  let ?feed = "fetch ?env 0 (GetHomefeedAwemeList 0 0 20) bound_world"
  obtain prms where p: "op_params ?env' (GetVideoById ''v1'') = Inr prms"
    by (simp add: example_env_def verify_fp_of_def)
  have req: "sign_request_of ?env' (op_uri (GetVideoById ''v1'')) prms bound_world
      = \<lparr>sr_uri = ''/aweme/v1/web/aweme/detail/'', sr_query_params = ''q'',
          sr_user_agent = ''UA'', sr_cookies = ''sid=1''\<rparr>"
    by (simp add: sign_request_of_def example_defs client_cookies_def)
  have t1: "new_trace bound_world (snd ?detail)
     = [SignCall \<lparr>sr_uri = ''/aweme/v1/web/aweme/detail/'', sr_query_params = ''q'',
                  sr_user_agent = ''UA'', sr_cookies = ''sid=1''\<rparr>,
        Dispatch ''/aweme/v1/web/aweme/detail/'' ''sid=1'' None (Some ''tok'')]"
    by (simp add: request_defs example_defs new_trace_def verify_fp_of_def eval_nat_numeral)
  have t2: "new_trace bound_world (snd ?feed)
     = [Dispatch ''/aweme/v1/web/module/feed/'' ''sid=1'' None None]"
    by (simp add: request_defs example_defs new_trace_def post_def post_with_def post_try_def
        sign_if_needed_def homefeed_params_no_token eval_nat_numeral)
  from C2_signing_by_operation [of ?env 0 "GetVideoById ''v1''" bound_world "fst ?detail" "snd ?detail"]
  have s1: "well_signed ?env (\<lambda>uri. None) (new_trace bound_world (snd ?detail))" by simp
  from C2_signing_by_operation [of ?env 0 "GetHomefeedAwemeList 0 0 20" bound_world "fst ?feed" "snd ?feed"]
  have s2: "well_signed ?env (\<lambda>uri. None) (new_trace bound_world (snd ?feed))" by simp
  from C2_signing_by_operation [of ?env' 0 "GetVideoById ''v1''" bound_world _ _ prms "Some []"] p req
  have s3: "fetch ?env' 0 (GetVideoById ''v1'') bound_world
      = (Some (Inl (ValueError ''a_bogus not found in response'')),
         emit (SignCall \<lparr>sr_uri = ''/aweme/v1/web/aweme/detail/'', sr_query_params = ''q'',
                  sr_user_agent = ''UA'', sr_cookies = ''sid=1''\<rparr>) bound_world)"
    by (simp add: truthy_def example_env_def)
  from t1 s1 t2 s2 s3 show ?thesis by simp
qed

section \<open>The expiry check before a request (C6)\<close>

text \<open>
  An environment with proxying on and a proxy pool, every request answered with
  application code 0; two endpoints, the first expiring at 900 s and the second at
  950 s; a client at clock 1000 s bound to the one account and to the first endpoint,
  the pool's list holding the second.
\<close>

definition proxy_env :: env where
  "proxy_env = (example_env (\<lambda>_. Inr (Some ''tok'')) (\<lambda>_. Inr ok_response))
     \<lparr>ENABLE_IP_PROXY := True, proxy_ip_pool_present := True\<rparr>"

definition endpoint :: "string \<Rightarrow> int \<Rightarrow> IpInfoModel" where
  "endpoint addr expiry = \<lparr>ip = addr, port = 8080, user = ''u'', protocol = ''https://'',
      password = ''p'', expired_time_ts = expiry\<rparr>"

definition expired_proxy_world :: world where
  "expired_proxy_world = bound_world
     \<lparr>pairs := (\<lambda>_. (0, Some (endpoint ''10.0.0.1'' 900))),
      proxy_list := [endpoint ''10.0.0.2'' 950]\<rparr>"

text \<open>
  C6 at this input: the item detail is fetched. The check before the request finds the
  bound endpoint expired, marks it invalid and binds the endpoint the pool hands out,
  which expired at 950 s; the request is sent through it at clock 1000 s and its answer
  is returned. The accounts and the account of the binding are the same before and after.
\<close>

theorem C6_expired_replacement_is_used:
  "trace (snd (fetch proxy_env 0 (GetVideoById ''v1'') expired_proxy_world))
     = [SignCall \<lparr>sr_uri = ''/aweme/v1/web/aweme/detail/'', sr_query_params = ''q'',
                  sr_user_agent = ''UA'', sr_cookies = ''sid=1''\<rparr>,
        IpInvalid (endpoint ''10.0.0.1'' 900),
        Dispatch ''/aweme/v1/web/aweme/detail/'' ''sid=1'' (Some (endpoint ''10.0.0.2'' 950))
          (Some ''tok'')]
   \<and> clock (snd (fetch proxy_env 0 (GetVideoById ''v1'') expired_proxy_world)) = 1000
   \<and> is_expired (endpoint ''10.0.0.2'' 950) 1000
   \<and> fst (fetch proxy_env 0 (GetVideoById ''v1'') expired_proxy_world)
     = Some (Inr \<lparr>js_status_code = Some 0, js_status_msg = None, js_body = 0\<rparr>)
   \<and> same_identity expired_proxy_world (snd (fetch proxy_env 0 (GetVideoById ''v1'') expired_proxy_world))"
  by (simp add: request_defs verify_fp_of_def pool_mark_ip_invalid_def
      proxy_pool_mark_ip_invalid_def get_proxy_def get_proxy_body_def
      reset_http_client_def is_expired_def py_int_def same_identity_def
      proxy_env_def endpoint_def expired_proxy_world_def example_defs eval_nat_numeral Let_def
      fun_eq_iff)

end
